theory Spec2Isabelle
  imports Main "HOL-Library.AList"
begin

section \<open>Data model\<close>

text \<open>
  The Python values that the modelled code stores in attributes and passes as arguments.
  An operator is referred to by its address in the heap (object identity); the registry
  \<^verbatim>\<open>_operators\<close> is an \<^verbatim>\<open>OrderedDict\<close> from child names to operators (or \<^verbatim>\<open>None\<close>),
  kept as an association list in insertion order.
\<close>

datatype pyval =
    VNone
  | VBool bool
  | VInt int
  | VStr string
  | VOperator nat
  | VOrderedDict "(string \<times> nat option) list"

text \<open>
  Exceptions, one constructor per raise site of the sources, and one per built-in
  exception class that the interpreter itself raises. \<open>ShadowedMethodCall\<close> is the one
  outcome that is no exception class: a call meant for the method \<^verbatim>\<open>named_operators\<close> went
  to an operator stored under that name (see \<open>method_lookup\<close> below).
\<close>

datatype error =
    AssignBeforeInit
      \<comment> \<open>\<^verbatim>\<open>AttributeError("cannot assign operator before Operator.__init__() call")\<close>\<close>
  | AttributeExists string
      \<comment> \<open>\<^verbatim>\<open>KeyError(f"attribute '{key}' already exists")\<close>\<close>
  | ArityMismatch nat nat
      \<comment> \<open>\<^verbatim>\<open>ValueError(f"Number of arguments ({len(inputs)}) does not match ...")\<close>\<close>
  | OnlyPythonOperator
      \<comment> \<open>\<^verbatim>\<open>Exception("Only PythonOperator is supported at the moment")\<close>\<close>
  | AssertionError
  | NotImplementedError
  | PyAttributeError
  | PyKeyError
  | PyTypeError
  | PyValueError
  | PyIndexError
  | ShadowedMethodCall

datatype 'a outcome = Returned 'a | Raised error

text \<open>
  What the sources read of an operator's class: its name, its docstring, the docstring
  that \<^verbatim>\<open>inspect.getdoc\<close> finds for \<^verbatim>\<open>__init__\<close>, and the mapping that \<^verbatim>\<open>comms()\<close>
  returns (\<open>None\<close> when the call raises; the base class defines no such method).
\<close>

record op_class =
  class_name :: string
  class_doc :: "string option"
  init_doc :: "string option"
  comms :: "(string \<times> pyval) list option"

text \<open>
  An operator object: its class, its \<^verbatim>\<open>__dict__\<close> (which holds \<^verbatim>\<open>_operators\<close> once
  \<^verbatim>\<open>Operator.__init__\<close> has run) and the callable bound as \<^verbatim>\<open>forward\<close>. The heap is the
  list of all operator objects; an address is an index into it.
\<close>

record 'f operator =
  op_cls :: op_class
  attrs :: "string \<rightharpoonup> pyval"
  forward :: 'f

type_synonym 'f heap = "'f operator list"

text \<open>
  Python has no dangling references. An address outside the heap denotes no object:
  reading an attribute of it finds nothing.
\<close>

definition getattr_dict :: "'f heap \<Rightarrow> nat \<Rightarrow> string \<Rightarrow> pyval option" where
  "getattr_dict h a k = (if a < length h then attrs (h ! a) k else None)"

text \<open>
  \<^verbatim>\<open>self._operators.items()\<close>: the registry when the attribute holds an \<^verbatim>\<open>OrderedDict\<close>;
  otherwise the access fails (the attribute is missing or has no \<^verbatim>\<open>items\<close>).
\<close>

definition operators_items :: "'f heap \<Rightarrow> nat \<Rightarrow> (string \<times> nat option) list option" where
  "operators_items h a =
     (case getattr_dict h a ''_operators'' of
        Some (VOrderedDict reg) \<Rightarrow> Some reg
      | _ \<Rightarrow> None)"

section \<open>Traversal: \<^verbatim>\<open>Operator.named_operators\<close>\<close>

text \<open>
  The attribute lookup \<^verbatim>\<open>module.named_operators\<close> of line 156, and
  \<^verbatim>\<open>self.named_operators\<close> of line 169. \<^verbatim>\<open>named_operators\<close> is a plain method of the
  class, so an entry of that name in the instance's \<^verbatim>\<open>__dict__\<close> comes first, and
  \<^verbatim>\<open>__setattr__\<close> does store a child there when it is registered under that name.
  \<open>None\<close>: the lookup reaches the method. A stored value that is no operator is not
  callable, and the call raises \<^verbatim>\<open>TypeError\<close>. A stored operator is called through its
  \<^verbatim>\<open>__call__\<close> with the arguments meant for the method; what that does depends on the
  operator's own \<^verbatim>\<open>forward\<close> (in line 156, with the one of the base class, which
  declares no input, \<^verbatim>\<open>__call__\<close> raises \<^verbatim>\<open>ValueError\<close>), and it is never the traversal:
  the model ends the run there with \<open>ShadowedMethodCall\<close>.
\<close>

definition method_lookup :: "'f heap \<Rightarrow> nat \<Rightarrow> error option" where
  "method_lookup h m =
     (case getattr_dict h m ''named_operators'' of
        None \<Rightarrow> None
      | Some (VOperator l) \<Rightarrow> Some ShadowedMethodCall
      | Some _ \<Rightarrow> Some PyTypeError)"

definition submodule_prefix :: "string \<Rightarrow> string \<Rightarrow> string" where
  "submodule_prefix prefix name = prefix @ (if prefix \<noteq> [] then ''.'' else []) @ name"

text \<open>
  The generator \<^verbatim>\<open>named_operators(memo, prefix, remove_duplicate)\<close>. Its run is given by
  the pairs it yields, the memo set it leaves behind, and the exception that ended it,
  if any. With \<^verbatim>\<open>remove_duplicate = False\<close> a cyclic graph makes the generator yield
  for ever, so the recursion depth is bounded by a fuel argument and \<open>None\<close> stands for
  a run that does not finish within it. \<open>named_children\<close> is the loop over
  \<^verbatim>\<open>self._operators.items()\<close>; for each child it first looks the method up on the child
  and recurses only when the lookup reaches the method.
\<close>

fun named_operators ::
    "nat \<Rightarrow> 'f heap \<Rightarrow> bool \<Rightarrow> nat set \<Rightarrow> string \<Rightarrow> nat
      \<Rightarrow> ((string \<times> nat) list \<times> nat set \<times> error option) option"
  and named_children ::
    "nat \<Rightarrow> 'f heap \<Rightarrow> bool \<Rightarrow> nat set \<Rightarrow> string \<Rightarrow> (string \<times> nat option) list
      \<Rightarrow> ((string \<times> nat) list \<times> nat set \<times> error option) option"
where
  "named_operators 0 h rd memo prefix self = None"
| "named_operators (Suc n) h rd memo prefix self =
     (if self \<in> memo then Some ([], memo, None)
      else
        let memo1 = (if rd then insert self memo else memo) in
        (case operators_items h self of
           None \<Rightarrow> Some ([(prefix, self)], memo1, Some PyAttributeError)
         | Some reg \<Rightarrow>
             (case named_children n h rd memo1 prefix reg of
                None \<Rightarrow> None
              | Some (ys, memo2, st) \<Rightarrow> Some ((prefix, self) # ys, memo2, st))))"
| "named_children n h rd memo prefix [] = Some ([], memo, None)"
| "named_children n h rd memo prefix ((name, module) # rest) =
     (case module of
        None \<Rightarrow> named_children n h rd memo prefix rest
      | Some m \<Rightarrow>
          (case method_lookup h m of
             Some e \<Rightarrow> Some ([], memo, Some e)
           | None \<Rightarrow>
               (case named_operators n h rd memo (submodule_prefix prefix name) m of
                  None \<Rightarrow> None
                | Some (ys, memo1, Some e) \<Rightarrow> Some (ys, memo1, Some e)
                | Some (ys, memo1, None) \<Rightarrow>
                    (case named_children n h rd memo1 prefix rest of
                       None \<Rightarrow> None
                     | Some (zs, memo2, st) \<Rightarrow> Some (ys @ zs, memo2, st)))))"

section \<open>\<^verbatim>\<open>Operator.is_dag\<close>\<close>

definition root_label :: "string \<Rightarrow> string" where
  "root_label name = (if name = [] then ''root'' else name)"

text \<open>
  The loop of \<^verbatim>\<open>is_dag\<close> over the yielded pairs, with the set \<^verbatim>\<open>graph\<close> of labels seen
  so far. It leaves at the first repeated label; \<open>None\<close> means that the pairs ran out.
\<close>

fun is_dag_loop :: "string set \<Rightarrow> (string \<times> nat) list \<Rightarrow> bool option" where
  "is_dag_loop graph [] = None"
| "is_dag_loop graph ((name, op) # rest) =
     (if root_label name \<in> graph then Some False
      else is_dag_loop (insert (root_label name) graph) rest)"

text \<open>
  The call \<^verbatim>\<open>self.named_operators()\<close> of line 169: the lookup of the method on
  \<^verbatim>\<open>self\<close>, then the generator with its default arguments (empty memo, empty prefix,
  duplicates removed).
\<close>

definition self_named_operators ::
    "nat \<Rightarrow> 'f heap \<Rightarrow> nat \<Rightarrow> ((string \<times> nat) list \<times> nat set \<times> error option) option" where
  "self_named_operators fuel h self =
     (case method_lookup h self of
        Some e \<Rightarrow> Some ([], {}, Some e)
      | None \<Rightarrow> named_operators fuel h True {} [] self)"

text \<open>
  \<^verbatim>\<open>is_dag\<close> consumes \<^verbatim>\<open>self.named_operators()\<close>. The generator is lazy: a repeated
  label returns \<^verbatim>\<open>False\<close> before a later exception of the traversal could surface.
\<close>

definition is_dag :: "nat \<Rightarrow> 'f heap \<Rightarrow> nat \<Rightarrow> bool outcome option" where
  "is_dag fuel h self =
     (case self_named_operators fuel h self of
        None \<Rightarrow> None
      | Some (ys, memo, st) \<Rightarrow>
          (case is_dag_loop {} ys of
             Some b \<Rightarrow> Some (Returned b)
           | None \<Rightarrow> (case st of Some e \<Rightarrow> Some (Raised e) | None \<Rightarrow> Some (Returned True))))"

section \<open>The tree as a graph, and the traversal the specification describes\<close>

text \<open>The children of a node that are operators, in registration order.\<close>

primrec registered :: "(string \<times> nat option) list \<Rightarrow> (string \<times> nat) list" where
  "registered [] = []"
| "registered (e # rest) =
     (case snd e of None \<Rightarrow> registered rest | Some c \<Rightarrow> (fst e, c) # registered rest)"

definition children_of :: "'f heap \<Rightarrow> nat \<Rightarrow> (string \<times> nat) list" where
  "children_of h a = (case operators_items h a of None \<Rightarrow> [] | Some reg \<Rightarrow> registered reg)"


text \<open>
  Every object of the heap went through \<^verbatim>\<open>Operator.__init__\<close> and registers only
  operators of the heap: the heaps that construction and child registration build.
\<close>

definition refs_below :: "nat \<Rightarrow> (string \<times> nat option) list \<Rightarrow> bool" where
  "refs_below n reg = list_all (\<lambda>e. case snd e of None \<Rightarrow> True | Some c \<Rightarrow> c < n) reg"

definition initialised :: "'f heap \<Rightarrow> bool" where
  "initialised h =
     list_all (\<lambda>ob. case attrs ob ''_operators'' of
                       Some (VOrderedDict reg) \<Rightarrow> refs_below (length h) reg
                     | _ \<Rightarrow> False) h"

text \<open>
  No object of the heap has an entry \<^verbatim>\<open>named_operators\<close> in its \<^verbatim>\<open>__dict__\<close>: nothing was
  ever assigned under the name of the traversal method, so every lookup of it reaches
  the method.
\<close>

definition unshadowed :: "'f heap \<Rightarrow> bool" where
  "unshadowed h = list_all (\<lambda>ob. attrs ob ''named_operators'' = None) h"

text \<open>
  The dotted path of a child as the traversal forms it in words: the child's
  registration name under a parent whose path is empty, and otherwise the parent's
  path, a dot, and the registration name.
\<close>

definition dotted_path :: "string \<Rightarrow> string \<Rightarrow> string" where
  "dotted_path parent name = (if parent = [] then name else parent @ ''.'' @ name)"

text \<open>
  Depth-first pre-order as the specification words it, with an explicit stack of pending
  \<open>(path, node)\<close> pairs and the set of nodes already yielded: a pending node that was
  yielded before is skipped; otherwise it is yielded and its children are pushed, in
  registration order, in front of everything that was pending.
\<close>

inductive spec_preorder ::
    "'f heap \<Rightarrow> nat set \<Rightarrow> (string \<times> nat) list \<Rightarrow> (string \<times> nat) list \<Rightarrow> bool"
  for h :: "'f heap"
where
  spec_done: "spec_preorder h seen [] []"
| spec_skip:
    "a \<in> seen \<Longrightarrow> spec_preorder h seen stack out
       \<Longrightarrow> spec_preorder h seen ((path, a) # stack) out"
| spec_visit:
    "a \<notin> seen
       \<Longrightarrow> spec_preorder h (insert a seen)
             (map (\<lambda>e. (dotted_path path (fst e), snd e)) (children_of h a) @ stack) out
       \<Longrightarrow> spec_preorder h seen ((path, a) # stack) ((path, a) # out)"

section \<open>Construction and child registration: \<^verbatim>\<open>Operator.__init__\<close>, \<^verbatim>\<open>Operator.__setattr__\<close>\<close>

text \<open>\<^verbatim>\<open>self.__dict__[key] = value\<close>\<close>

definition dict_store :: "'f heap \<Rightarrow> nat \<Rightarrow> string \<Rightarrow> pyval \<Rightarrow> 'f heap" where
  "dict_store h self key value =
     (if self < length h then h[self := (h ! self)\<lparr>attrs := (attrs (h ! self))(key \<mapsto> value)\<rparr>]
      else h)"

text \<open>\<^verbatim>\<open>key in s\<close> for two strings: \<open>key\<close> occurs in \<open>s\<close> as a substring.\<close>

fun str_contains :: "string \<Rightarrow> string \<Rightarrow> bool" where
  "str_contains s key =
     (take (length key) s = key \<or> (case s of [] \<Rightarrow> False | _ # t \<Rightarrow> str_contains t key))"

text \<open>
  \<^verbatim>\<open>key in self._operators\<close>, for whatever value the attribute holds: a key of the
  dict, a substring of a string, and a \<^verbatim>\<open>TypeError\<close> for a value that is no container.
\<close>

definition py_contains :: "pyval \<Rightarrow> string \<Rightarrow> bool outcome" where
  "py_contains container key =
     (case container of
        VOrderedDict reg \<Rightarrow> Returned (key \<in> fst ` set reg)
      | VStr s \<Rightarrow> Returned (str_contains s key)
      | _ \<Rightarrow> Raised PyTypeError)"

text \<open>
  \<^verbatim>\<open>Operator.__setattr__(self, key, value)\<close>. Both \<^verbatim>\<open>raise\<close> statements come before any
  store. \<^verbatim>\<open>self._operators[key] = value\<close> updates the dict in place (an existing key
  keeps its position, a new one goes last) and fails with \<^verbatim>\<open>TypeError\<close> on a value that
  supports no item assignment.
\<close>

definition Operator_setattr ::
    "'f heap \<Rightarrow> nat \<Rightarrow> string \<Rightarrow> pyval \<Rightarrow> unit outcome \<times> 'f heap" where
  "Operator_setattr h self key value =
     (case value of
        VOperator v \<Rightarrow>
          (case getattr_dict h self ''_operators'' of
             None \<Rightarrow> (Raised AssignBeforeInit, h)
           | Some ops \<Rightarrow>
               (case (if getattr_dict h self key \<noteq> None
                      then (case py_contains ops key of
                              Raised e \<Rightarrow> Raised e
                            | Returned present \<Rightarrow> Returned (\<not> present))
                      else Returned False) of
                  Raised e \<Rightarrow> (Raised e, h)
                | Returned True \<Rightarrow> (Raised (AttributeExists key), h)
                | Returned False \<Rightarrow>
                    (case ops of
                       VOrderedDict reg \<Rightarrow>
                         (Returned (),
                          dict_store
                            (dict_store h self ''_operators''
                               (VOrderedDict (AList.update key (Some v) reg)))
                            self key value)
                     | _ \<Rightarrow> (Raised PyTypeError, h))))
      | _ \<Rightarrow> (Returned (), dict_store h self key value))"

text \<open>
  The names that the body of \<^verbatim>\<open>class Operator\<close> binds (lines 21 to 218): attributes of
  every operator through its class, none of them in the instance's \<^verbatim>\<open>__dict__\<close> and none
  of them a child. \<^verbatim>\<open>__setattr__\<close> never consults them.
\<close>

definition Operator_class_attributes :: "string list" where
  "Operator_class_attributes =
     [''_version'', ''__init__'', ''serialise'', ''deserialise'', ''from_airflow'', ''__repr__'',
      ''__setattr__'', ''operators'', ''named_operators'', ''inputs'', ''is_dag'', ''forward'',
      ''__call__'', ''_state_dict_model'', ''load_state_dict'', ''state_dict'', ''deploy'']"

text \<open>\<^verbatim>\<open>Operator.__init__\<close>: \<^verbatim>\<open>self._operators = OrderedDict()\<close>, through \<^verbatim>\<open>__setattr__\<close>.\<close>

definition Operator_init :: "'f heap \<Rightarrow> nat \<Rightarrow> unit outcome \<times> 'f heap" where
  "Operator_init h self = Operator_setattr h self ''_operators'' (VOrderedDict [])"

text \<open>
  \<^verbatim>\<open>operator_cls()\<close>: a new object of the class, at the next free address, with an empty
  \<^verbatim>\<open>__dict__\<close> and the class's own \<^verbatim>\<open>forward\<close>, initialised by \<^verbatim>\<open>Operator.__init__\<close>.
\<close>

definition new_operator :: "op_class \<Rightarrow> 'f \<Rightarrow> 'f heap \<Rightarrow> nat \<times> 'f heap" where
  "new_operator cls fwd h =
     (length h,
      snd (Operator_init (h @ [\<lparr>op_cls = cls, attrs = Map.empty, forward = fwd\<rparr>]) (length h)))"

section \<open>Invocation: \<^verbatim>\<open>Operator.inputs\<close>, \<^verbatim>\<open>Operator.__call__\<close>\<close>

text \<open>
  A forward callable as \<^verbatim>\<open>__call__\<close> uses it: the argument names that
  \<^verbatim>\<open>inspect.getfullargspec(self.forward).args\<close> reports (for a method, \<^verbatim>\<open>self\<close> first)
  and what the call \<^verbatim>\<open>self.forward(**input_dict)\<close> does with a keyword mapping.
\<close>

record callable =
  argspec :: "string list"
  run :: "(string \<times> pyval) list \<Rightarrow> pyval outcome"

text \<open>\<^verbatim>\<open>args.remove('self')\<close> raises \<^verbatim>\<open>ValueError\<close> when the name is not in the list.\<close>

definition inputs :: "callable heap \<Rightarrow> nat \<Rightarrow> string list outcome" where
  "inputs h self =
     (let args = argspec (forward (h ! self)) in
      if ''self'' \<in> set args then Returned (remove1 ''self'' args) else Raised PyValueError)"

fun truthy :: "pyval \<Rightarrow> bool" where
  "truthy VNone = False"
| "truthy (VBool b) = b"
| "truthy (VInt i) = (i \<noteq> 0)"
| "truthy (VStr s) = (s \<noteq> [])"
| "truthy (VOperator a) = True"
| "truthy (VOrderedDict reg) = (reg \<noteq> [])"

text \<open>\<^verbatim>\<open>for i, arg in enumerate(args): input_dict[self.inputs[i]] = arg\<close>\<close>

fun bind_positional ::
    "string list \<Rightarrow> nat \<Rightarrow> pyval list \<Rightarrow> (string \<times> pyval) list \<Rightarrow> (string \<times> pyval) list outcome"
where
  "bind_positional ins i [] input_dict = Returned input_dict"
| "bind_positional ins i (arg # rest) input_dict =
     (if i < length ins
      then bind_positional ins (Suc i) rest (AList.update (ins ! i) arg input_dict)
      else Raised PyIndexError)"

text \<open>
  \<^verbatim>\<open>for key, value in kwargs.items(): input_dict[self.inputs[key]] = value\<close>:
  \<^verbatim>\<open>self.inputs\<close> is a list and \<^verbatim>\<open>key\<close> a string, so the subscript raises \<^verbatim>\<open>TypeError\<close>
  in the first iteration.
\<close>

fun bind_named ::
    "string list \<Rightarrow> (string \<times> pyval) list \<Rightarrow> (string \<times> pyval) list \<Rightarrow> (string \<times> pyval) list outcome"
where
  "bind_named ins [] input_dict = Returned input_dict"
| "bind_named ins ((key, value) # rest) input_dict = Raised PyTypeError"

text \<open>Lines 196 to 205 of \<^verbatim>\<open>__call__\<close>: build \<^verbatim>\<open>input_dict\<close>, then call \<^verbatim>\<open>forward\<close>.\<close>

definition bind_and_forward ::
    "callable heap \<Rightarrow> nat \<Rightarrow> string list \<Rightarrow> pyval list \<Rightarrow> (string \<times> pyval) list \<Rightarrow> pyval outcome"
where
  "bind_and_forward h self ins args kwargs =
     (case bind_positional ins 0 args [] of
        Raised e \<Rightarrow> Raised e
      | Returned d1 \<Rightarrow>
          (case bind_named ins kwargs d1 of
             Raised e \<Rightarrow> Raised e
           | Returned input_dict \<Rightarrow> run (forward (h ! self)) input_dict))"

text \<open>\<^verbatim>\<open>kwargs.pop("_type_check_", True)\<close>: the value popped, and what is left.\<close>

definition type_check_flag :: "(string \<times> pyval) list \<Rightarrow> pyval" where
  "type_check_flag kwargs =
     (case map_of kwargs ''_type_check_'' of None \<Rightarrow> VBool True | Some v \<Rightarrow> v)"

definition kwargs_rest :: "(string \<times> pyval) list \<Rightarrow> (string \<times> pyval) list" where
  "kwargs_rest kwargs = AList.delete ''_type_check_'' kwargs"

text \<open>
  \<^verbatim>\<open>Operator.__call__(self, *args, **kwargs)\<close>; \<open>kwargs\<close> is the keyword dict in call
  order. The diagnostic \<^verbatim>\<open>print(input_dict)\<close> is left out. \<open>None\<close>: the acyclicity check
  did not finish within the fuel.
\<close>

definition Operator_call ::
    "nat \<Rightarrow> callable heap \<Rightarrow> nat \<Rightarrow> pyval list \<Rightarrow> (string \<times> pyval) list \<Rightarrow> pyval outcome option"
where
  "Operator_call fuel h self args kwargs =
     (case is_dag fuel h self of
        None \<Rightarrow> None
      | Some (Raised e) \<Rightarrow> Some (Raised e)
      | Some (Returned False) \<Rightarrow> Some (Raised AssertionError)
      | Some (Returned True) \<Rightarrow>
          Some (let type_check = type_check_flag kwargs;
                    kwargs1 = kwargs_rest kwargs
                in case inputs h self of
                     Raised e \<Rightarrow> Raised e
                   | Returned ins \<Rightarrow>
                       let len_inputs = length args + length kwargs1 in
                       if truthy type_check \<and> len_inputs \<noteq> length ins
                       then Raised (ArityMismatch (length ins) len_inputs)
                       else bind_and_forward h self ins args kwargs1))"

section \<open>The scheduler's task objects\<close>

text \<open>
  What the bridge reads of a scheduler task: the name of its class, its \<^verbatim>\<open>task_id\<close>, its
  \<^verbatim>\<open>python_callable\<close> (\<open>None\<close> when the object has no such attribute), the ids of
  \<^verbatim>\<open>get_direct_relatives(upstream = True)\<close> in the order they come, and the keyword
  arguments the task was constructed with.
\<close>

record 'c task =
  task_cls :: string
  task_id :: string
  python_callable :: "'c option"
  upstream :: "string list"
  task_kwargs :: "(string \<times> pyval) list"

text \<open>A DAG: the tasks that iterating \<^verbatim>\<open>dag.task_group\<close> gives, and \<^verbatim>\<open>dag.task_dict\<close>.\<close>

record 'c dag =
  task_group :: "'c task list"
  task_dict :: "string \<rightharpoonup> 'c task"

section \<open>Export: \<^verbatim>\<open>to_airflow_operator\<close>\<close>

text \<open>\<^verbatim>\<open>d.update(other)\<close> on keyword dicts kept as association lists.\<close>

definition dict_update :: "(string \<times> pyval) list \<Rightarrow> (string \<times> pyval) list \<Rightarrow> (string \<times> pyval) list" where
  "dict_update d other = fold (\<lambda>e acc. AList.update (fst e) (snd e) acc) other d"

text \<open>The keyword arguments that \<^verbatim>\<open>to_airflow_operator\<close> passes to the constructor by name.\<close>

definition fixed_kwargs :: "(string \<times> pyval) list" where
  "fixed_kwargs =
     [(''email'', VNone), (''email_on_retry'', VBool False), (''email_on_failure'', VBool False),
      (''doc'', VNone), (''doc_md'', VNone), (''doc_json'', VNone), (''doc_yaml'', VNone),
      (''on_execute_callback'', VNone), (''on_failure_callback'', VNone),
      (''on_success_callback'', VNone), (''on_retry_callback'', VNone)]"

text \<open>
  Modelled from the spec: the scheduler's \<^verbatim>\<open>BaseOperator\<close> class is not part of the
  sources. Of the object that \<^verbatim>\<open>BaseOperator(email = None, ..., **operator_kwargs_dict)\<close>
  builds, the model keeps what the scheduler task record of the specification has: the
  class name, the \<^verbatim>\<open>task_id\<close> (a string), no callable, no upstream relation, and the
  keyword arguments. Python itself rejects a call that gives one keyword twice.
\<close>

definition BaseOperator :: "(string \<times> pyval) list \<Rightarrow> 'c task outcome" where
  "BaseOperator operator_kwargs_dict =
     (if \<exists>k \<in> fst ` set operator_kwargs_dict. k \<in> fst ` set fixed_kwargs then Raised PyTypeError
      else (case map_of operator_kwargs_dict ''task_id'' of
              Some (VStr tid) \<Rightarrow>
                Returned \<lparr>task_cls = ''BaseOperator'', task_id = tid, python_callable = None,
                          upstream = [], task_kwargs = fixed_kwargs @ operator_kwargs_dict\<rparr>
            | _ \<Rightarrow> Raised PyTypeError))"

text \<open>\<^verbatim>\<open>doc = doc if doc else ""\<close>\<close>

definition or_empty :: "string option \<Rightarrow> string" where
  "or_empty doc = (case doc of None \<Rightarrow> [] | Some s \<Rightarrow> s)"

text \<open>Lines 51 to 56: the value stored under \<^verbatim>\<open>doc_rst\<close>.\<close>

definition full_doc :: "op_class \<Rightarrow> pyval" where
  "full_doc cls =
     (let doc = or_empty (class_doc cls);
          init_doc = or_empty (init_doc cls);
          full_doc = doc @ [CHR 0x0A] @ init_doc
      in if full_doc = [] then VNone else VStr full_doc)"

definition to_airflow_operator ::
    "'f heap \<Rightarrow> nat \<Rightarrow> pyval \<Rightarrow> (string \<times> pyval) list \<Rightarrow> 'c task outcome" where
  "to_airflow_operator h operator timeout operator_kwargs =
     (let cls = op_cls (h ! operator);
          d1 = AList.update ''execution_timeout'' timeout [];
          d2 = AList.update ''sla'' timeout d1;
          d3 = AList.update ''task_id'' (VStr (class_name cls)) d2;
          comms = (case comms cls of None \<Rightarrow> [] | Some c \<Rightarrow> c);
          d4 = AList.update ''doc_rst'' (full_doc cls) d3;
          d5 = dict_update d4 comms;
          d6 = dict_update d5 operator_kwargs
      in BaseOperator d6)"

section \<open>Import: \<^verbatim>\<open>from_airflow_operator\<close>, \<^verbatim>\<open>from_airflow_dag\<close>\<close>

text \<open>
  The forward of an imported operator: the one its class defines, a task's callable, or
  \<^verbatim>\<open>partial(sequential_forward, ops = root.operators())\<close> for the root at the given
  address.
\<close>

datatype 'c fwd = ClassForward | Registered 'c | SequentialForward nat

text \<open>
  Modelled from the spec: \<^verbatim>\<open>_register_forward\<close> is called by the import functions and
  defined nowhere in the sources. The specification says that import binds the node's
  forward callable to the task's callable.
\<close>

definition register_forward :: "'f heap \<Rightarrow> nat \<Rightarrow> 'f \<Rightarrow> 'f heap" where
  "register_forward h a f = (if a < length h then h[a := (h ! a)\<lparr>forward := f\<rparr>] else h)"

definition from_airflow_operator ::
    "op_class \<Rightarrow> 'c task \<Rightarrow> 'c fwd heap \<Rightarrow> nat outcome \<times> 'c fwd heap" where
  "from_airflow_operator operator_cls air_operator h =
     (if \<not> (task_cls air_operator \<noteq> ''PythonOperator'') then (Raised AssertionError, h)
      else
        let (op, h1) = new_operator operator_cls ClassForward h in
        (case python_callable air_operator of
           None \<Rightarrow> (Raised PyAttributeError, h1)
         | Some f \<Rightarrow> (Returned op, register_forward h1 op (Registered f))))"

text \<open>The first loop of \<^verbatim>\<open>from_airflow_dag\<close>: the kind check and the table \<^verbatim>\<open>topo_tree\<close>.\<close>

fun build_topo_tree ::
    "'c task list \<Rightarrow> (string \<times> string list) list \<Rightarrow> (string \<times> string list) list outcome" where
  "build_topo_tree [] topo_tree = Returned topo_tree"
| "build_topo_tree (x # xs) topo_tree =
     (if task_cls x \<noteq> ''PythonOperator'' then Raised OnlyPythonOperator
      else build_topo_tree xs (AList.update (task_id x) (upstream x) topo_tree))"

definition edge_name :: "string \<Rightarrow> string \<Rightarrow> string" where
  "edge_name p child = ''op__'' @ p @ ''__'' @ child"

text \<open>
  \<^verbatim>\<open>try: all_ops[p]._register_forward(dag.task_dict[p].python_callable) except: pass\<close>
\<close>

definition try_register :: "'c dag \<Rightarrow> string \<Rightarrow> nat \<Rightarrow> 'c fwd heap \<Rightarrow> 'c fwd heap" where
  "try_register dag p a h =
     (case task_dict dag p of
        None \<Rightarrow> h
      | Some t \<Rightarrow> (case python_callable t of None \<Rightarrow> h | Some f \<Rightarrow> register_forward h a (Registered f)))"

text \<open>The loop \<^verbatim>\<open>for p in parents\<close>, on the heap and the dict \<^verbatim>\<open>all_ops\<close>.\<close>

fun attach_parents ::
    "'c dag \<Rightarrow> op_class \<Rightarrow> string \<Rightarrow> string list \<Rightarrow> 'c fwd heap \<times> (string \<rightharpoonup> nat)
      \<Rightarrow> unit outcome \<times> 'c fwd heap \<times> (string \<rightharpoonup> nat)" where
  "attach_parents dag operator_cls child [] (h, all_ops) = (Returned (), h, all_ops)"
| "attach_parents dag operator_cls child (p # ps) (h, all_ops) =
     (let (h1, all_ops1) =
            (if all_ops p = None
             then (let (a, h') = new_operator operator_cls ClassForward h in (h', all_ops(p \<mapsto> a)))
             else (h, all_ops))
      in case all_ops1 p of
           None \<Rightarrow> (Raised PyKeyError, h1, all_ops1)
         | Some pa \<Rightarrow>
             (case all_ops1 child of
                None \<Rightarrow> (Raised PyKeyError, h1, all_ops1)
              | Some ca \<Rightarrow>
                  (case Operator_setattr h1 pa (edge_name p child) (VOperator ca) of
                     (Raised e, h2) \<Rightarrow> (Raised e, h2, all_ops1)
                   | (Returned u, h2) \<Rightarrow>
                       attach_parents dag operator_cls child ps (try_register dag p pa h2, all_ops1))))"

text \<open>
  The loop \<^verbatim>\<open>for child, parents in topo_tree.items()\<close>, on the heap, \<^verbatim>\<open>all_ops\<close> and
  the list \<^verbatim>\<open>parent_less_ops\<close>.
\<close>

fun import_loop ::
    "'c dag \<Rightarrow> op_class \<Rightarrow> (string \<times> string list) list
      \<Rightarrow> 'c fwd heap \<times> (string \<rightharpoonup> nat) \<times> string list
      \<Rightarrow> unit outcome \<times> 'c fwd heap \<times> (string \<rightharpoonup> nat) \<times> string list" where
  "import_loop dag operator_cls [] s = (Returned (), s)"
| "import_loop dag operator_cls ((child, parents) # rest) (h, all_ops, parent_less_ops) =
     (case (if all_ops child = None
            then (let (a, h') = new_operator operator_cls ClassForward h;
                      all_ops' = all_ops(child \<mapsto> a)
                  in case task_dict dag child of
                       None \<Rightarrow> (Raised PyKeyError, h', all_ops')
                     | Some t \<Rightarrow>
                         (case python_callable t of
                            None \<Rightarrow> (Raised PyAttributeError, h', all_ops')
                          | Some f \<Rightarrow> (Returned (), register_forward h' a (Registered f), all_ops')))
            else (Returned (), h, all_ops)) of
        (Raised e, h1, all_ops1) \<Rightarrow> (Raised e, h1, all_ops1, parent_less_ops)
      | (Returned u, h1, all_ops1) \<Rightarrow>
          (case attach_parents dag operator_cls child parents (h1, all_ops1) of
             (Raised e, h2, all_ops2) \<Rightarrow> (Raised e, h2, all_ops2, parent_less_ops)
           | (Returned u, h2, all_ops2) \<Rightarrow>
               import_loop dag operator_cls rest
                 (h2, all_ops2, if parents = [] then parent_less_ops @ [child] else parent_less_ops)))"

text \<open>The loop \<^verbatim>\<open>for p in parent_less_ops\<close>.\<close>

fun attach_root ::
    "nat \<Rightarrow> (string \<rightharpoonup> nat) \<Rightarrow> string list \<Rightarrow> 'f heap \<Rightarrow> unit outcome \<times> 'f heap" where
  "attach_root root all_ops [] h = (Returned (), h)"
| "attach_root root all_ops (p # ps) h =
     (case all_ops p of
        None \<Rightarrow> (Raised PyKeyError, h)
      | Some a \<Rightarrow>
          (case Operator_setattr h root (edge_name ''root'' p) (VOperator a) of
             (Raised e, h1) \<Rightarrow> (Raised e, h1)
           | (Returned u, h1) \<Rightarrow> attach_root root all_ops ps h1))"

text \<open>
  \<^verbatim>\<open>from_airflow_dag\<close>, returning \<^verbatim>\<open>all_ops\<close> next to the root so that the tree can be
  described; the kind check fails before anything is allocated.
\<close>

definition import_dag ::
    "op_class \<Rightarrow> 'c dag \<Rightarrow> 'c fwd heap \<Rightarrow> (nat \<times> (string \<rightharpoonup> nat)) outcome \<times> 'c fwd heap" where
  "import_dag operator_cls dag h =
     (case build_topo_tree (task_group dag) [] of
        Raised e \<Rightarrow> (Raised e, h)
      | Returned topo_tree \<Rightarrow>
          (let (root, h0) = new_operator operator_cls ClassForward h in
           case import_loop dag operator_cls topo_tree (h0, Map.empty, []) of
             (Raised e, h1, all_ops, parent_less_ops) \<Rightarrow> (Raised e, h1)
           | (Returned u, h1, all_ops, parent_less_ops) \<Rightarrow>
               (case attach_root root all_ops parent_less_ops h1 of
                  (Raised e, h2) \<Rightarrow> (Raised e, h2)
                | (Returned u, h2) \<Rightarrow>
                    (Returned (root, all_ops),
                     register_forward h2 root (SequentialForward root)))))"

definition from_airflow_dag ::
    "op_class \<Rightarrow> 'c dag \<Rightarrow> 'c fwd heap \<Rightarrow> nat outcome \<times> 'c fwd heap" where
  "from_airflow_dag operator_cls dag h =
     (case import_dag operator_cls dag h of
        (Raised e, h1) \<Rightarrow> (Raised e, h1)
      | (Returned r, h1) \<Rightarrow> (Returned (fst r), h1))"

text \<open>The DAG that holds one task.\<close>

definition single_task_dag :: "'c task \<Rightarrow> 'c dag" where
  "single_task_dag t = \<lparr>task_group = [t], task_dict = [task_id t \<mapsto> t]\<rparr>"

section \<open>Describing the imported tree\<close>

text \<open>
  The operator at \<open>c\<close> is attached to the operator at \<open>a\<close> under \<open>name\<close>: the attribute
  holds it and the registry maps the name to it.
\<close>

definition attached :: "'f heap \<Rightarrow> nat \<Rightarrow> string \<Rightarrow> nat \<Rightarrow> bool" where
  "attached h a name c \<longleftrightarrow>
     getattr_dict h a name = Some (VOperator c) \<and>
     (case operators_items h a of None \<Rightarrow> False | Some reg \<Rightarrow> map_of reg name = Some (Some c))"

text \<open>
  The operator that \<^verbatim>\<open>all_ops\<close> holds for the task \<open>child\<close> is attached to the one it holds
  for the task \<open>p\<close>, under the name \<^verbatim>\<open>op__{p}__{child}\<close>.
\<close>

definition edge_attached :: "'f heap \<Rightarrow> (string \<rightharpoonup> nat) \<Rightarrow> string \<Rightarrow> string \<Rightarrow> bool" where
  "edge_attached h all_ops p child \<longleftrightarrow>
     (case all_ops p of
        None \<Rightarrow> False
      | Some pa \<Rightarrow>
          (case all_ops child of
             None \<Rightarrow> False
           | Some ca \<Rightarrow> attached h pa (edge_name p child) ca))"

text \<open>
  The operators of \<^verbatim>\<open>all_ops\<close> are objects of the heap allocated after the root, one per
  task id.
\<close>

definition fresh_ops :: "nat \<Rightarrow> 'f heap \<Rightarrow> (string \<rightharpoonup> nat) \<Rightarrow> bool" where
  "fresh_ops root h all_ops \<longleftrightarrow>
     root < length h \<and> (\<forall>k a. all_ops k = Some a \<longrightarrow> root < a \<and> a < length h) \<and>
     (\<forall>k k' a. all_ops k = Some a \<longrightarrow> all_ops k' = Some a \<longrightarrow> k = k')"

section \<open>Concrete heaps and inputs\<close>

definition base_class :: op_class where
  "base_class = \<lparr>class_name = ''Operator'', class_doc = None, init_doc = None, comms = None\<rparr>"



definition uninitialised_heap :: "unit heap" where
  "uninitialised_heap =
     [\<lparr>op_cls = base_class, attrs = Map.empty, forward = ()\<rparr>,
      \<lparr>op_cls = base_class, attrs = [''_operators'' \<mapsto> VOrderedDict []], forward = ()\<rparr>]"

definition occupied_heap :: "unit heap" where
  "occupied_heap =
     [\<lparr>op_cls = base_class,
       attrs = [''_operators'' \<mapsto> VOrderedDict [], ''n'' \<mapsto> VInt 2],
       forward = ()\<rparr>,
      \<lparr>op_cls = base_class, attrs = [''_operators'' \<mapsto> VOrderedDict []], forward = ()\<rparr>]"

definition abc_heap :: "callable heap" where
  "abc_heap =
     [\<lparr>op_cls = base_class, attrs = [''_operators'' \<mapsto> VOrderedDict []],
       forward = \<lparr>argspec = [''self'', ''a'', ''b'', ''c''],
                  run = (\<lambda>input_dict. Returned (VInt (int (length input_dict))))\<rparr>\<rparr>]"

definition documented_class :: op_class where
  "documented_class =
     \<lparr>class_name = ''Adder'', class_doc = Some ''Adds.'', init_doc = Some ''Makes an adder.'',
      comms = None\<rparr>"

definition bare_heap :: "unit heap" where
  "bare_heap =
     [\<lparr>op_cls = base_class, attrs = [''_operators'' \<mapsto> VOrderedDict []], forward = ()\<rparr>]"

definition documented_heap :: "unit heap" where
  "documented_heap =
     [\<lparr>op_cls = documented_class, attrs = [''_operators'' \<mapsto> VOrderedDict []], forward = ()\<rparr>]"

definition documented_task :: "unit task" where
  "documented_task =
     \<lparr>task_cls = ''BaseOperator'', task_id = ''Adder'', python_callable = None, upstream = [],
      task_kwargs = fixed_kwargs @
        [(''execution_timeout'', VNone), (''sla'', VNone), (''task_id'', VStr ''Adder''),
         (''doc_rst'', VStr (''Adds.'' @ [CHR 0x0A] @ ''Makes an adder.''))]\<rparr>"

definition branch_task :: "nat task" where
  "branch_task =
     \<lparr>task_cls = ''BranchPythonOperator'', task_id = ''choose'', python_callable = Some 7,
      upstream = [], task_kwargs = []\<rparr>"

definition python_task :: "nat task" where
  "python_task =
     \<lparr>task_cls = ''PythonOperator'', task_id = ''work'', python_callable = Some 7,
      upstream = [], task_kwargs = []\<rparr>"

definition adder_class :: op_class where
  "adder_class = \<lparr>class_name = ''Adder'', class_doc = None, init_doc = None, comms = None\<rparr>"

definition leaf_heap :: "nat fwd heap" where
  "leaf_heap =
     [\<lparr>op_cls = adder_class, attrs = [''_operators'' \<mapsto> VOrderedDict []],
       forward = Registered 7\<rparr>]"

definition exported_leaf :: "nat task" where
  "exported_leaf =
     \<lparr>task_cls = ''BaseOperator'', task_id = ''Adder'', python_callable = None, upstream = [],
      task_kwargs = fixed_kwargs @
        [(''execution_timeout'', VNone), (''sla'', VNone), (''task_id'', VStr ''Adder''),
         (''doc_rst'', VStr [CHR 0x0A])]\<rparr>"


text \<open>A \<^verbatim>\<open>PythonOperator\<close> task, and the DAG with the tasks A, B and C where A is upstream of B and of C.\<close>

definition py_task :: "string \<Rightarrow> 'c \<Rightarrow> string list \<Rightarrow> 'c task" where
  "py_task tid f ups =
     \<lparr>task_cls = ''PythonOperator'', task_id = tid, python_callable = Some f, upstream = ups,
      task_kwargs = []\<rparr>"

definition abc_dag :: "nat dag" where
  "abc_dag =
     \<lparr>task_group = [py_task ''A'' 10 [], py_task ''B'' 20 [''A''], py_task ''C'' 30 [''A'']],
      task_dict = [''A'' \<mapsto> py_task ''A'' 10 [], ''B'' \<mapsto> py_task ''B'' 20 [''A''],
                   ''C'' \<mapsto> py_task ''C'' 30 [''A'']]\<rparr>"

definition abc_tree :: "nat fwd heap" where
  "abc_tree =
     [\<lparr>op_cls = base_class,
       attrs = [''_operators'' \<mapsto> VOrderedDict [(''op__root__A'', Some 1)],
                ''op__root__A'' \<mapsto> VOperator 1],
       forward = SequentialForward 0\<rparr>,
      \<lparr>op_cls = base_class,
       attrs = [''_operators'' \<mapsto> VOrderedDict [(''op__A__B'', Some 2), (''op__A__C'', Some 3)],
                ''op__A__B'' \<mapsto> VOperator 2, ''op__A__C'' \<mapsto> VOperator 3],
       forward = Registered 10\<rparr>,
      \<lparr>op_cls = base_class, attrs = [''_operators'' \<mapsto> VOrderedDict []],
       forward = Registered 20\<rparr>,
      \<lparr>op_cls = base_class, attrs = [''_operators'' \<mapsto> VOrderedDict []],
       forward = Registered 30\<rparr>]"

definition shadowed_heap :: "unit heap" where
  "shadowed_heap =
     [\<lparr>op_cls = base_class,
       attrs = [''_operators'' \<mapsto> VOrderedDict [(''m'', Some 1)], ''m'' \<mapsto> VOperator 1],
       forward = ()\<rparr>,
      \<lparr>op_cls = base_class,
       attrs = [''_operators'' \<mapsto> VOrderedDict [(''named_operators'', Some 2)],
                ''named_operators'' \<mapsto> VOperator 2],
       forward = ()\<rparr>,
      \<lparr>op_cls = base_class, attrs = [''_operators'' \<mapsto> VOrderedDict []], forward = ()\<rparr>]"

definition version_heap :: "unit heap" where
  "version_heap =
     [\<lparr>op_cls = base_class,
       attrs = [''_operators'' \<mapsto> VOrderedDict [(''_version'', Some 1)],
                ''_version'' \<mapsto> VOperator 1],
       forward = ()\<rparr>,
      \<lparr>op_cls = base_class, attrs = [''_operators'' \<mapsto> VOrderedDict []], forward = ()\<rparr>]"

definition fresh_pair_heap :: "unit heap" where
  "fresh_pair_heap =
     [\<lparr>op_cls = base_class, attrs = [''_operators'' \<mapsto> VOrderedDict []], forward = ()\<rparr>,
      \<lparr>op_cls = base_class, attrs = [''_operators'' \<mapsto> VOrderedDict []], forward = ()\<rparr>]"

section \<open>Properties of the traversal\<close>

lemma named_children_reached:
  assumes "method_lookup h c = None"
  shows "named_children n h rd memo prefix ((name, Some c) # rest) =
          (case named_operators n h rd memo (submodule_prefix prefix name) c of
             None \<Rightarrow> None
           | Some (ys, memo1, Some e) \<Rightarrow> Some (ys, memo1, Some e)
           | Some (ys, memo1, None) \<Rightarrow>
               (case named_children n h rd memo1 prefix rest of
                  None \<Rightarrow> None
                | Some (zs, memo2, st) \<Rightarrow> Some (ys @ zs, memo2, st)))"
  using assms by simp

lemma named_children_shadowed:
  assumes "method_lookup h c = Some e"
  shows "named_children n h rd memo prefix ((name, Some c) # rest) = Some ([], memo, Some e)"
  using assms by simp

lemma memo_mono:
  "named_operators n h rd memo prefix self = Some (ys, memo', st) \<Longrightarrow> memo \<subseteq> memo'"
  "named_children n h rd memo prefix reg = Some (ys, memo', st) \<Longrightarrow> memo \<subseteq> memo'"
proof (induction n h rd memo prefix self and n h rd memo prefix reg
        arbitrary: ys memo' st and ys memo' st
        rule: named_operators_named_children.induct)
  case (1 h rd memo prefix self)
  then show ?case by simp
next
  case (2 n h rd memo prefix self)
  then show ?case
    by (auto simp: Let_def split: if_splits option.splits prod.splits)
next
  case (3 n h rd memo prefix)
  then show ?case by simp
next
  case (4 n h rd memo prefix name module rest)
  show ?case
  proof (cases module)
    case None
    with "4.prems" have "named_children n h rd memo prefix rest = Some (ys, memo', st)" by simp
    from "4.IH"(1)[OF None this] show ?thesis .
  next
    case (Some c)
    show ?thesis
    proof (cases "method_lookup h c")
      case (Some e)
      from "4.prems" show ?thesis
        unfolding \<open>module = Some c\<close> named_children_shadowed[OF Some] by simp
    next
      case None
      note eq = named_children_reached[OF None]
      from "4.prems" obtain ys1 memo1 st1 where
        a: "named_operators n h rd memo (submodule_prefix prefix name) c = Some (ys1, memo1, st1)"
        unfolding \<open>module = Some c\<close> eq
        by (cases "named_operators n h rd memo (submodule_prefix prefix name) c") auto
      from "4.IH"(2)[OF \<open>module = Some c\<close> None a] have m1: "memo \<subseteq> memo1" .
      show ?thesis
      proof (cases st1)
        case (Some e)
        with "4.prems" m1 show ?thesis unfolding \<open>module = Some c\<close> eq a by auto
      next
        case st: None
        from "4.prems" obtain zs where
          b: "named_children n h rd memo1 prefix rest = Some (zs, memo', st)"
          unfolding \<open>module = Some c\<close> eq a st
          by (cases "named_children n h rd memo1 prefix rest") auto
        from "4.IH"(3)[OF \<open>module = Some c\<close> None a[unfolded st] refl refl refl b]
        have "memo1 \<subseteq> memo'" .
        with m1 show ?thesis by simp
      qed
    qed
  qed
qed

lemma named_total:
  "rd \<Longrightarrow> card ({a. a < length h} - memo) < n \<Longrightarrow> \<exists>r. named_operators n h rd memo prefix self = Some r"
  "rd \<Longrightarrow> card ({a. a < length h} - memo) < n \<Longrightarrow> \<exists>r. named_children n h rd memo prefix reg = Some r"
proof (induction n h rd memo prefix self and n h rd memo prefix reg
        rule: named_operators_named_children.induct)
  case (1 h rd memo prefix self)
  then show ?case by simp
next
  case (2 n h rd memo prefix self)
  show ?case
  proof (cases "self \<in> memo")
    case True
    then show ?thesis by simp
  next
    case False
    show ?thesis
    proof (cases "operators_items h self")
      case None
      with False show ?thesis by simp
    next
      case (Some reg)
      then have v: "self < length h"
        by (auto simp: operators_items_def getattr_dict_def split: if_splits)
      have e: "{a. a < length h} - insert self memo = ({a. a < length h} - memo) - {self}"
        by auto
      have "self \<in> {a. a < length h} - memo" using v False by simp
      then have "card (({a. a < length h} - memo) - {self}) < card ({a. a < length h} - memo)"
        by (intro card_Diff1_less) auto
      then have c: "card ({a. a < length h} - (if rd then insert self memo else memo)) < n"
        using "2.prems" e by simp
      from "2.IH"[OF False refl Some "2.prems"(1) c] obtain r where
        "named_children n h rd (insert self memo) prefix reg = Some r"
        using "2.prems"(1) by auto
      with False Some "2.prems"(1) show ?thesis by (auto split: prod.splits)
    qed
  qed
next
  case (3 n h rd memo prefix)
  then show ?case by simp
next
  case (4 n h rd memo prefix name module rest)
  show ?case
  proof (cases module)
    case None
    from "4.IH"(1)[OF None "4.prems"] None show ?thesis by simp
  next
    case (Some m)
    show ?thesis
    proof (cases "method_lookup h m")
      case (Some e)
      show ?thesis unfolding \<open>module = Some m\<close> named_children_shadowed[OF Some] by simp
    next
      case ml: None
      note eq = named_children_reached[OF ml]
      from "4.IH"(2)[OF Some ml "4.prems"] obtain ys memo1 st where
        r: "named_operators n h rd memo (submodule_prefix prefix name) m = Some (ys, memo1, st)"
        by (metis prod_cases3)
      show ?thesis
      proof (cases st)
        case None
        from memo_mono(1)[OF r] have "{a. a < length h} - memo1 \<subseteq> {a. a < length h} - memo" by auto
        then have "card ({a. a < length h} - memo1) \<le> card ({a. a < length h} - memo)"
          by (intro card_mono) auto
        with "4.prems" have "card ({a. a < length h} - memo1) < n" by simp
        from "4.IH"(3)[OF Some ml r[unfolded None] refl refl refl "4.prems"(1) this]
        obtain r' where "named_children n h rd memo1 prefix rest = Some r'" by auto
        then show ?thesis unfolding \<open>module = Some m\<close> eq r None by (auto split: prod.splits)
      next
        case (Some e)
        show ?thesis unfolding \<open>module = Some m\<close> eq r Some by simp
      qed
    qed
  qed
qed





lemma named_operators_total:
  assumes "length h < n"
  shows "\<exists>r. named_operators n h True memo prefix self = Some r"
proof -
  have "card ({a. a < length h} - memo) \<le> card {a. a < length h}"
    by (intro card_mono) auto
  with assms have "card ({a. a < length h} - memo) < n" by simp
  from named_total(1)[OF TrueI this] show ?thesis .
qed

lemma self_named_operators_total:
  assumes "length h < n"
  shows "\<exists>r. self_named_operators n h self = Some r"
proof (cases "method_lookup h self")
  case None
  with named_operators_total[OF assms, where memo = "{}" and prefix = "[]" and self = self] show ?thesis
    by (simp add: self_named_operators_def)
next
  case (Some e)
  then show ?thesis by (simp add: self_named_operators_def)
qed


section \<open>Termination of the traversal\<close>



section \<open>The acyclicity check\<close>




section \<open>The traversal is the depth-first pre-order of the reachable nodes\<close>













lemma spec_preorder_deterministic:
  "spec_preorder h seen stack out \<Longrightarrow> spec_preorder h seen stack out' \<Longrightarrow> out = out'"
proof (induction arbitrary: out' rule: spec_preorder.induct)
  case (spec_done seen)
  then show ?case by (auto elim: spec_preorder.cases)
next
  case (spec_skip a seen stack out path)
  from spec_skip.prems spec_skip.hyps(1) have "spec_preorder h seen stack out'"
    by (auto elim: spec_preorder.cases)
  with spec_skip.IH show ?case by simp
next
  case (spec_visit a seen path stack out)
  from spec_visit.prems spec_visit.hyps(1) obtain out1 where
    "out' = (path, a) # out1"
    "spec_preorder h (insert a seen)
       (map (\<lambda>e. (dotted_path path (fst e), snd e)) (children_of h a) @ stack) out1"
    by (auto elim: spec_preorder.cases)
  with spec_visit.IH show ?case by simp
qed





section \<open>Child registration\<close>

text \<open>
  Claim C6 does not hold as stated. \<^verbatim>\<open>__setattr__\<close> tests \<^verbatim>\<open>key in self.__dict__\<close> only,
  so a name that is an attribute of the owner through its class, such as \<^verbatim>\<open>_version\<close>,
  and no child is not refused: the child is registered under it and the owner changes.
\<close>

theorem setattr_class_attribute_counterexample:
  "''_version'' \<in> set Operator_class_attributes
   \<and> getattr_dict fresh_pair_heap 0 ''_operators'' = Some (VOrderedDict [])
   \<and> Operator_setattr fresh_pair_heap 0 ''_version'' (VOperator 1) = (Returned (), version_heap)
   \<and> version_heap \<noteq> fresh_pair_heap"
proof -
  have "attrs (version_heap ! 0) ''_version'' \<noteq> attrs (fresh_pair_heap ! 0) ''_version''"
    by (simp add: version_heap_def fresh_pair_heap_def)
  then have "version_heap \<noteq> fresh_pair_heap" by auto
  moreover have "Operator_setattr fresh_pair_heap 0 ''_version'' (VOperator 1) = (Returned (), version_heap)"
    by (simp add: Operator_setattr_def getattr_dict_def py_contains_def dict_store_def
          fresh_pair_heap_def version_heap_def fun_upd_twist)
  moreover have "''_version'' \<in> set Operator_class_attributes"
    by (simp add: Operator_class_attributes_def)
  moreover have "getattr_dict fresh_pair_heap 0 ''_operators'' = Some (VOrderedDict [])"
    by (simp add: getattr_dict_def fresh_pair_heap_def)
  ultimately show ?thesis by simp
qed

text \<open>
  Claim C6 as amended. Registering a child (assigning an operator to an attribute) fails
  when the owner's \<^verbatim>\<open>__dict__\<close> has no \<^verbatim>\<open>_operators\<close> yet, that is, \<^verbatim>\<open>Operator.__init__\<close>
  has not run, and it fails when the name is an entry of the owner's \<^verbatim>\<open>__dict__\<close> that is
  not a key of its registry. In both cases the heap, and with it the owner's registry
  and attributes, is the one before the call.
\<close>

theorem setattr_ownership_errors:
  "(getattr_dict h owner ''_operators'' = None \<longrightarrow>
      Operator_setattr h owner key (VOperator c) = (Raised AssignBeforeInit, h))
   \<and> (getattr_dict h owner ''_operators'' = Some (VOrderedDict reg)
        \<and> getattr_dict h owner key \<noteq> None \<and> key \<notin> fst ` set reg \<longrightarrow>
      Operator_setattr h owner key (VOperator c) = (Raised (AttributeExists key), h))"
  by (auto simp: Operator_setattr_def py_contains_def)

theorem setattr_ownership_errors_witness:
  "getattr_dict uninitialised_heap 0 ''_operators'' = None
   \<and> Operator_setattr uninitialised_heap 0 ''child'' (VOperator 1) = (Raised AssignBeforeInit, uninitialised_heap)
   \<and> getattr_dict occupied_heap 0 ''_operators'' = Some (VOrderedDict [])
   \<and> getattr_dict occupied_heap 0 ''n'' = Some (VInt 2) \<and> ''n'' \<notin> fst ` set ([] :: (string \<times> nat option) list)
   \<and> Operator_setattr occupied_heap 0 ''n'' (VOperator 1) = (Raised (AttributeExists ''n''), occupied_heap)"
proof -
  have a: "getattr_dict uninitialised_heap 0 ''_operators'' = None"
    by (simp add: getattr_dict_def uninitialised_heap_def)
  have b: "getattr_dict occupied_heap 0 ''_operators'' = Some (VOrderedDict [])"
    by (simp add: getattr_dict_def occupied_heap_def)
  have c: "getattr_dict occupied_heap 0 ''n'' = Some (VInt 2)"
    by (simp add: getattr_dict_def occupied_heap_def)
  from setattr_ownership_errors[where h = uninitialised_heap and owner = 0 and key = "''child''" and c = 1] a
  have d: "Operator_setattr uninitialised_heap 0 ''child'' (VOperator 1) = (Raised AssignBeforeInit, uninitialised_heap)"
    by simp
  from setattr_ownership_errors[where h = occupied_heap and owner = 0 and key = "''n''" and c = 1 and reg = "[]"] b c
  have e: "Operator_setattr occupied_heap 0 ''n'' (VOperator 1) = (Raised (AttributeExists ''n''), occupied_heap)"
    by simp
  from a b c d e show ?thesis by simp
qed

section \<open>Invocation\<close>

lemma is_dag_total:
  assumes "length h < fuel"
  shows "\<exists>r. is_dag fuel h self = Some r"
proof -
  from self_named_operators_total[OF assms] obtain ys memo st where
    "self_named_operators fuel h self = Some (ys, memo, st)" by (metis prod_cases3)
  then show ?thesis
    by (auto simp: is_dag_def split: option.splits)
qed

lemma abc_is_dag: "is_dag 2 abc_heap 0 = Some (Returned True)"
  by (simp add: is_dag_def self_named_operators_def numeral_2_eq_2 abc_heap_def operators_items_def method_lookup_def getattr_dict_def
        root_label_def)

lemma abc_inputs: "inputs abc_heap 0 = Returned [''a'', ''b'', ''c'']"
  by (simp add: inputs_def abc_heap_def)

text \<open>
  Claim C5. Let the declared inputs of the node be \<open>ins\<close>. A call whose type check is
  enabled (the popped \<^verbatim>\<open>_type_check_\<close> is truthy, which is the default) and whose number
  of positional plus named arguments differs from the number of declared inputs fails;
  it fails with the arity error whenever the acyclicity assertion before it holds. A
  call whose type check is disabled goes on to bind its arguments and to call
  \<^verbatim>\<open>forward\<close>, whatever the two numbers are.
\<close>

theorem call_arity_check:
  assumes "length h < fuel" and "inputs h self = Returned ins"
  shows "(truthy (type_check_flag kwargs) \<and> length args + length (kwargs_rest kwargs) \<noteq> length ins \<longrightarrow>
            (\<exists>e. Operator_call fuel h self args kwargs = Some (Raised e) \<and>
                 (is_dag fuel h self = Some (Returned True) \<longrightarrow>
                    e = ArityMismatch (length ins) (length args + length (kwargs_rest kwargs)))))
       \<and> (\<not> truthy (type_check_flag kwargs) \<and> is_dag fuel h self = Some (Returned True) \<longrightarrow>
            Operator_call fuel h self args kwargs
              = Some (bind_and_forward h self ins args (kwargs_rest kwargs)))"
proof -
  from is_dag_total[OF assms(1)] obtain r where r: "is_dag fuel h self = Some r" by blast
  show ?thesis
  proof (cases r)
    case (Returned b)
    with r assms(2) show ?thesis by (cases b) (auto simp: Operator_call_def Let_def)
  next
    case (Raised e)
    with r assms(2) show ?thesis by (auto simp: Operator_call_def Let_def)
  qed
qed

theorem call_arity_check_witness:
  "length abc_heap < 2 \<and> inputs abc_heap 0 = Returned [''a'', ''b'', ''c''] \<and>
   is_dag 2 abc_heap 0 = Some (Returned True) \<and>
   Operator_call 2 abc_heap 0 [VInt 1, VInt 2] [] = Some (Raised (ArityMismatch 3 2)) \<and>
   Operator_call 2 abc_heap 0 [VInt 1, VInt 2] [(''_type_check_'', VBool False)]
     = Some (Returned (VInt 2))"
proof -
  have l: "length abc_heap < 2" by (simp add: abc_heap_def)
  have b: "bind_and_forward abc_heap 0 [''a'', ''b'', ''c''] [VInt 1, VInt 2] [] = Returned (VInt 2)"
    by (simp add: bind_and_forward_def abc_heap_def)
  from call_arity_check[OF l abc_inputs, of "[]" "[VInt 1, VInt 2]"] abc_is_dag
  have "Operator_call 2 abc_heap 0 [VInt 1, VInt 2] [] = Some (Raised (ArityMismatch 3 2))"
    by (simp add: type_check_flag_def kwargs_rest_def)
  moreover
  from call_arity_check[OF l abc_inputs, of "[(''_type_check_'', VBool False)]" "[VInt 1, VInt 2]"]
    abc_is_dag b
  have "Operator_call 2 abc_heap 0 [VInt 1, VInt 2] [(''_type_check_'', VBool False)]
     = Some (Returned (VInt 2))"
    by (simp add: type_check_flag_def kwargs_rest_def)
  ultimately show ?thesis using l abc_inputs abc_is_dag by blast
qed

text \<open>
  Claim C4, which the code does not meet. The loop over the named arguments indexes the
  list \<^verbatim>\<open>self.inputs\<close> with the argument's name, so every call that passes a named
  argument (other than \<^verbatim>\<open>_type_check_\<close>) on a node that got as far as binding ends in an
  exception and never reaches \<^verbatim>\<open>forward\<close>. For parameters \<^verbatim>\<open>[a, b, c]\<close> the call with
  \<^verbatim>\<open>1, 2, c = 3\<close> raises \<^verbatim>\<open>TypeError\<close>, while the positional call with \<^verbatim>\<open>1, 2, 3\<close>
  binds and returns what \<^verbatim>\<open>forward\<close> returns.
\<close>

theorem call_named_argument_fails:
  assumes "is_dag fuel h self = Some (Returned True)" and "inputs h self = Returned ins"
    and "kwargs_rest kwargs \<noteq> []"
  shows "\<exists>e. Operator_call fuel h self args kwargs = Some (Raised e)"
proof -
  from assms(3) obtain k v rest where kw: "kwargs_rest kwargs = (k, v) # rest"
    by (cases "kwargs_rest kwargs") auto
  have "\<exists>e. bind_and_forward h self ins args (kwargs_rest kwargs) = Raised e"
    unfolding bind_and_forward_def kw
    by (cases "bind_positional ins 0 args []") auto
  with assms(1,2) show ?thesis
    by (auto simp: Operator_call_def Let_def)
qed

theorem call_named_argument_fails_witness:
  "is_dag 2 abc_heap 0 = Some (Returned True) \<and> inputs abc_heap 0 = Returned [''a'', ''b'', ''c'']
   \<and> kwargs_rest [(''c'', VInt 3)] \<noteq> []
   \<and> Operator_call 2 abc_heap 0 [VInt 1, VInt 2] [(''c'', VInt 3)] = Some (Raised PyTypeError)
   \<and> Operator_call 2 abc_heap 0 [VInt 1, VInt 2, VInt 3] [] = Some (Returned (VInt 3))"
proof -
  have k: "kwargs_rest [(''c'', VInt 3)] \<noteq> []" by (simp add: kwargs_rest_def)
  from call_named_argument_fails[OF abc_is_dag abc_inputs k, of "[VInt 1, VInt 2]"]
  obtain e where e: "Operator_call 2 abc_heap 0 [VInt 1, VInt 2] [(''c'', VInt 3)] = Some (Raised e)"
    by blast
  have "Operator_call 2 abc_heap 0 [VInt 1, VInt 2] [(''c'', VInt 3)] = Some (Raised PyTypeError)"
    by (simp add: Operator_call_def abc_is_dag abc_inputs type_check_flag_def kwargs_rest_def
          bind_and_forward_def)
  moreover
  have "bind_and_forward abc_heap 0 [''a'', ''b'', ''c''] [VInt 1, VInt 2, VInt 3] []
          = Returned (VInt 3)"
    by (simp add: bind_and_forward_def abc_heap_def)
  then have "Operator_call 2 abc_heap 0 [VInt 1, VInt 2, VInt 3] [] = Some (Returned (VInt 3))"
    by (simp add: Operator_call_def abc_is_dag abc_inputs type_check_flag_def kwargs_rest_def)
  ultimately show ?thesis using abc_is_dag abc_inputs k e by blast
qed

section \<open>Export\<close>

lemma map_of_dict_update:
  "k \<notin> fst ` set other \<Longrightarrow> map_of (dict_update d other) k = map_of d k"
  unfolding dict_update_def
  by (induction other arbitrary: d) (auto simp: update_conv')

lemma BaseOperator_Returned:
  assumes "BaseOperator d = Returned t"
  shows "task_kwargs t = fixed_kwargs @ d" and "task_cls t = ''BaseOperator''"
    and "python_callable t = None" and "upstream t = []"
    and "map_of d ''task_id'' = Some (VStr (task_id t))"
  using assms
  by (auto simp: BaseOperator_def split: if_splits option.splits pyval.splits)

lemma fixed_kwargs_doc_rst: "map_of fixed_kwargs ''doc_rst'' = None"
  by (simp add: fixed_kwargs_def)

text \<open>
  Claim C9 does not hold as stated. \<^verbatim>\<open>to_airflow_operator\<close> joins the two texts with a
  newline between them, so the documentation field is not their plain concatenation, and
  for a node with neither text the field is the one-character string of that newline,
  not \<^verbatim>\<open>None\<close>.
\<close>

theorem export_doc_counterexample:
  "(to_airflow_operator bare_heap 0 VNone [] :: unit task outcome) =
     Returned \<lparr>task_cls = ''BaseOperator'', task_id = ''Operator'', python_callable = None,
               upstream = [],
               task_kwargs = fixed_kwargs @
                 [(''execution_timeout'', VNone), (''sla'', VNone),
                  (''task_id'', VStr ''Operator''), (''doc_rst'', VStr [CHR 0x0A])]\<rparr>
   \<and> (to_airflow_operator documented_heap 0 VNone [] :: unit task outcome) =
     Returned \<lparr>task_cls = ''BaseOperator'', task_id = ''Adder'', python_callable = None,
               upstream = [],
               task_kwargs = fixed_kwargs @
                 [(''execution_timeout'', VNone), (''sla'', VNone),
                  (''task_id'', VStr ''Adder''),
                  (''doc_rst'', VStr (''Adds.'' @ [CHR 0x0A] @ ''Makes an adder.''))]\<rparr>
   \<and> ''Adds.'' @ [CHR 0x0A] @ ''Makes an adder.'' \<noteq> ''Adds.'' @ ''Makes an adder.''"
  by (simp add: to_airflow_operator_def bare_heap_def documented_heap_def base_class_def
        documented_class_def full_doc_def or_empty_def dict_update_def BaseOperator_def
        fixed_kwargs_def)

text \<open>
  Claim C9 as amended. When the export succeeds, neither \<^verbatim>\<open>comms()\<close> nor the caller's
  keyword arguments override \<^verbatim>\<open>doc_rst\<close>, and at least one of the two texts is not
  empty, the documentation field of the task is the node's own text, a newline, and its
  constructor's text, with the empty string for a text that is absent.
\<close>

theorem export_doc:
  assumes "to_airflow_operator h operator timeout operator_kwargs = Returned t"
    and "''doc_rst'' \<notin> fst ` set (case comms (op_cls (h ! operator)) of None \<Rightarrow> [] | Some c \<Rightarrow> c)"
    and "''doc_rst'' \<notin> fst ` set operator_kwargs"
    and "or_empty (class_doc (op_cls (h ! operator))) \<noteq> []
         \<or> or_empty (init_doc (op_cls (h ! operator))) \<noteq> []"
  shows "map_of (task_kwargs t) ''doc_rst''
         = Some (VStr (or_empty (class_doc (op_cls (h ! operator))) @ [CHR 0x0A]
                       @ or_empty (init_doc (op_cls (h ! operator)))))"
proof -
  from assms(1) obtain d where
    b: "BaseOperator d = Returned t" and
    d: "d = dict_update (dict_update
              (AList.update ''doc_rst'' (full_doc (op_cls (h ! operator)))
                 (AList.update ''task_id'' (VStr (class_name (op_cls (h ! operator))))
                    (AList.update ''sla'' timeout (AList.update ''execution_timeout'' timeout []))))
              (case comms (op_cls (h ! operator)) of None \<Rightarrow> [] | Some c \<Rightarrow> c))
            operator_kwargs"
    by (simp add: to_airflow_operator_def Let_def)
  have "map_of d ''doc_rst'' = Some (full_doc (op_cls (h ! operator)))"
    unfolding d using assms(2,3) by (simp add: map_of_dict_update update_conv')
  moreover have "full_doc (op_cls (h ! operator))
      = VStr (or_empty (class_doc (op_cls (h ! operator))) @ [CHR 0x0A]
              @ or_empty (init_doc (op_cls (h ! operator))))"
    by (simp add: full_doc_def Let_def)
  ultimately show ?thesis
    using BaseOperator_Returned(1)[OF b] fixed_kwargs_doc_rst by (simp add: map_add_def)
qed

theorem export_doc_witness:
  "to_airflow_operator documented_heap 0 VNone [] = Returned documented_task
   \<and> ''doc_rst'' \<notin> fst ` set (case comms (op_cls (documented_heap ! 0)) of None \<Rightarrow> [] | Some c \<Rightarrow> c)
   \<and> ''doc_rst'' \<notin> fst ` set ([] :: (string \<times> pyval) list)
   \<and> or_empty (class_doc (op_cls (documented_heap ! 0))) \<noteq> []
   \<and> map_of (task_kwargs documented_task) ''doc_rst''
       = Some (VStr (''Adds.'' @ [CHR 0x0A] @ ''Makes an adder.''))"
proof -
  have e: "to_airflow_operator documented_heap 0 VNone [] = Returned documented_task"
    by (simp add: to_airflow_operator_def documented_heap_def documented_task_def
        documented_class_def full_doc_def or_empty_def dict_update_def BaseOperator_def
        fixed_kwargs_def)
  have c: "''doc_rst'' \<notin> fst ` set (case comms (op_cls (documented_heap ! 0)) of None \<Rightarrow> [] | Some c \<Rightarrow> c)"
    by (simp add: documented_heap_def documented_class_def)
  have k: "''doc_rst'' \<notin> fst ` set ([] :: (string \<times> pyval) list)" by simp
  have n: "or_empty (class_doc (op_cls (documented_heap ! 0))) \<noteq> []"
    by (simp add: documented_heap_def documented_class_def or_empty_def)
  from export_doc[OF e c k] n
  have "map_of (task_kwargs documented_task) ''doc_rst''
       = Some (VStr (''Adds.'' @ [CHR 0x0A] @ ''Makes an adder.''))"
    by (simp add: documented_heap_def documented_class_def or_empty_def)
  with e c k n show ?thesis by blast
qed

section \<open>Import: the kind check\<close>

lemma new_operator_eq:
  "new_operator cls fwd h =
     (length h, h @ [\<lparr>op_cls = cls, attrs = [''_operators'' \<mapsto> VOrderedDict []], forward = fwd\<rparr>])"
  by (simp add: new_operator_def Operator_init_def Operator_setattr_def dict_store_def)

lemma build_topo_tree_kinds:
  "build_topo_tree xs topo = Returned r \<Longrightarrow> list_all (\<lambda>x. task_cls x = ''PythonOperator'') xs"
  by (induction xs arbitrary: topo) (auto split: if_splits)

lemma build_topo_tree_rejects:
  "\<not> list_all (\<lambda>x. task_cls x = ''PythonOperator'') xs \<Longrightarrow>
     build_topo_tree xs topo = Raised OnlyPythonOperator"
  by (induction xs arbitrary: topo) auto

text \<open>
  \<^verbatim>\<open>from_airflow_dag\<close> rejects a task group that holds a task of another class, before
  it allocates anything.
\<close>

lemma from_airflow_dag_kind_check:
  "\<not> list_all (\<lambda>x. task_cls x = ''PythonOperator'') (task_group dag) \<Longrightarrow>
     from_airflow_dag operator_cls dag h = (Raised OnlyPythonOperator, h)"
  by (simp add: from_airflow_dag_def import_dag_def build_topo_tree_rejects)

text \<open>
  Claim C8, which the code does not meet on its single-task path.
  \<^verbatim>\<open>from_airflow_operator\<close> asserts that the class name differs from
  \<^verbatim>\<open>PythonOperator\<close>, under the message that only that class is supported: a task of
  another class that has a callable is imported, and a \<^verbatim>\<open>PythonOperator\<close> is refused.
\<close>

theorem from_airflow_operator_inverted_check:
  "(task_cls t \<noteq> ''PythonOperator'' \<and> python_callable t = Some f \<longrightarrow>
      from_airflow_operator operator_cls t h =
        (Returned (length h),
         h @ [\<lparr>op_cls = operator_cls, attrs = [''_operators'' \<mapsto> VOrderedDict []],
                forward = Registered f\<rparr>]))
   \<and> (task_cls t = ''PythonOperator'' \<longrightarrow>
      from_airflow_operator operator_cls t h = (Raised AssertionError, h))"
  by (simp add: from_airflow_operator_def new_operator_eq register_forward_def)

theorem from_airflow_operator_inverted_check_witness:
  "task_cls branch_task \<noteq> ''PythonOperator'' \<and> python_callable branch_task = Some 7
   \<and> from_airflow_operator base_class branch_task [] =
        (Returned 0,
         [\<lparr>op_cls = base_class, attrs = [''_operators'' \<mapsto> VOrderedDict []],
           forward = Registered 7\<rparr>])
   \<and> task_cls python_task = ''PythonOperator''
   \<and> from_airflow_operator base_class python_task [] = (Raised AssertionError, [])"
proof -
  have a: "task_cls branch_task \<noteq> ''PythonOperator''" "python_callable branch_task = Some 7"
    by (simp_all add: branch_task_def)
  have b: "task_cls python_task = ''PythonOperator''" by (simp add: python_task_def)
  from from_airflow_operator_inverted_check[of branch_task 7 base_class "[]"] a
  have c: "from_airflow_operator base_class branch_task [] =
        (Returned 0,
         [\<lparr>op_cls = base_class, attrs = [''_operators'' \<mapsto> VOrderedDict []],
           forward = Registered 7\<rparr>])" by simp
  from from_airflow_operator_inverted_check[of python_task _ base_class "[]"] b
  have d: "from_airflow_operator base_class python_task [] = (Raised AssertionError, [])" by simp
  from a b c d show ?thesis by blast
qed

section \<open>Export followed by import\<close>

lemma edge_name_not_registry: "edge_name p c \<noteq> ''_operators''"
  by (simp add: edge_name_def)

lemma export_leaf: "to_airflow_operator leaf_heap 0 VNone [] = Returned exported_leaf"
  by (simp add: to_airflow_operator_def leaf_heap_def exported_leaf_def adder_class_def
        full_doc_def or_empty_def dict_update_def BaseOperator_def fixed_kwargs_def)

lemma import_single:
  assumes "task_cls t = ''PythonOperator''" and "python_callable t = Some f" and "upstream t = []"
  shows "from_airflow_dag operator_cls (single_task_dag t) h =
      (Returned (length h),
       h @ [\<lparr>op_cls = operator_cls,
              attrs = [''_operators'' \<mapsto>
                         VOrderedDict [(edge_name ''root'' (task_id t), Some (Suc (length h)))],
                       edge_name ''root'' (task_id t) \<mapsto> VOperator (Suc (length h))],
              forward = SequentialForward (length h)\<rparr>,
            \<lparr>op_cls = operator_cls, attrs = [''_operators'' \<mapsto> VOrderedDict []],
              forward = Registered f\<rparr>])"
  using assms
  by (simp add: from_airflow_dag_def import_dag_def single_task_dag_def new_operator_eq
        register_forward_def Operator_setattr_def getattr_dict_def nth_append py_contains_def
        dict_store_def edge_name_not_registry list_update_append fun_upd_twist)

lemma export_task_id:
  assumes "to_airflow_operator h operator timeout operator_kwargs = Returned t"
    and "''task_id'' \<notin> fst ` set (case comms (op_cls (h ! operator)) of None \<Rightarrow> [] | Some c \<Rightarrow> c)"
    and "''task_id'' \<notin> fst ` set operator_kwargs"
  shows "task_id t = class_name (op_cls (h ! operator))"
proof -
  from assms(1) obtain d where
    b: "BaseOperator d = Returned t" and
    d: "d = dict_update (dict_update
              (AList.update ''doc_rst'' (full_doc (op_cls (h ! operator)))
                 (AList.update ''task_id'' (VStr (class_name (op_cls (h ! operator))))
                    (AList.update ''sla'' timeout (AList.update ''execution_timeout'' timeout []))))
              (case comms (op_cls (h ! operator)) of None \<Rightarrow> [] | Some c \<Rightarrow> c))
            operator_kwargs"
    by (simp add: to_airflow_operator_def Let_def)
  have "map_of d ''task_id'' = Some (VStr (class_name (op_cls (h ! operator))))"
    unfolding d using assms(2,3) by (simp add: map_of_dict_update update_conv')
  with BaseOperator_Returned(5)[OF b] show ?thesis by simp
qed

lemma export_is_base_task:
  assumes "to_airflow_operator h operator timeout operator_kwargs = Returned t"
  shows "task_cls t = ''BaseOperator''" and "python_callable t = None"
proof -
  from assms obtain d where b: "BaseOperator d = Returned t"
    by (simp add: to_airflow_operator_def Let_def)
  from BaseOperator_Returned(2,3)[OF b]
  show "task_cls t = ''BaseOperator''" and "python_callable t = None" by simp_all
qed

text \<open>
  Claim C1 does not hold as stated. The task that \<^verbatim>\<open>to_airflow_operator\<close> builds is a
  \<^verbatim>\<open>BaseOperator\<close> and carries no callable: \<^verbatim>\<open>from_airflow_dag\<close> rejects it for its
  kind, and \<^verbatim>\<open>from_airflow_operator\<close> fails on its missing \<^verbatim>\<open>python_callable\<close>. No root
  is reconstructed.
\<close>

theorem export_import_counterexample:
  "to_airflow_operator leaf_heap 0 VNone [] = Returned exported_leaf
   \<and> from_airflow_dag adder_class (single_task_dag exported_leaf) leaf_heap
       = (Raised OnlyPythonOperator, leaf_heap)
   \<and> fst (from_airflow_operator adder_class exported_leaf leaf_heap) = Raised PyAttributeError"
proof -
  have "from_airflow_dag adder_class (single_task_dag exported_leaf) leaf_heap
       = (Raised OnlyPythonOperator, leaf_heap)"
    by (rule from_airflow_dag_kind_check) (simp add: single_task_dag_def exported_leaf_def)
  moreover have "fst (from_airflow_operator adder_class exported_leaf leaf_heap) = Raised PyAttributeError"
    by (simp add: from_airflow_operator_def exported_leaf_def new_operator_eq)
  ultimately show ?thesis using export_leaf by blast
qed

text \<open>
  Claim C1 as amended. Exporting a node gives a task of the scheduler's base class that
  has the node's class name as \<^verbatim>\<open>task_id\<close> (when neither \<^verbatim>\<open>comms()\<close> nor the caller's
  keyword arguments override it) and no callable, and importing that task as a DAG is
  refused for its kind. Importing the DAG of a single \<^verbatim>\<open>PythonOperator\<close> task with
  callable \<open>f\<close> and no upstream allocates a root and one more operator: the root's only
  child, registered as \<^verbatim>\<open>op__root__<task_id>\<close>, is that operator, and its forward is \<open>f\<close>.
\<close>

theorem export_then_import:
  "(to_airflow_operator h operator timeout operator_kwargs = Returned t
      \<and> ''task_id'' \<notin> fst ` set (case comms (op_cls (h ! operator)) of None \<Rightarrow> [] | Some c \<Rightarrow> c)
      \<and> ''task_id'' \<notin> fst ` set operator_kwargs \<longrightarrow>
        task_id t = class_name (op_cls (h ! operator)) \<and> task_cls t = ''BaseOperator''
        \<and> python_callable t = None
        \<and> from_airflow_dag operator_cls (single_task_dag t) h1 = (Raised OnlyPythonOperator, h1))
   \<and> (task_cls t1 = ''PythonOperator'' \<and> python_callable t1 = Some f \<and> upstream t1 = [] \<longrightarrow>
        from_airflow_dag operator_cls (single_task_dag t1) h1 =
          (Returned (length h1),
           h1 @ [\<lparr>op_cls = operator_cls,
                   attrs = [''_operators'' \<mapsto>
                              VOrderedDict [(edge_name ''root'' (task_id t1), Some (Suc (length h1)))],
                            edge_name ''root'' (task_id t1) \<mapsto> VOperator (Suc (length h1))],
                   forward = SequentialForward (length h1)\<rparr>,
                 \<lparr>op_cls = operator_cls, attrs = [''_operators'' \<mapsto> VOrderedDict []],
                   forward = Registered f\<rparr>]))"
proof (intro conjI impI)
  assume a: "to_airflow_operator h operator timeout operator_kwargs = Returned t
      \<and> ''task_id'' \<notin> fst ` set (case comms (op_cls (h ! operator)) of None \<Rightarrow> [] | Some c \<Rightarrow> c)
      \<and> ''task_id'' \<notin> fst ` set operator_kwargs"
  then show "task_id t = class_name (op_cls (h ! operator))"
    using export_task_id by blast
  from a show c: "task_cls t = ''BaseOperator''" and "python_callable t = None"
    using export_is_base_task by blast+
  show "from_airflow_dag operator_cls (single_task_dag t) h1 = (Raised OnlyPythonOperator, h1)"
    by (rule from_airflow_dag_kind_check) (simp add: single_task_dag_def c)
next
  assume "task_cls t1 = ''PythonOperator'' \<and> python_callable t1 = Some f \<and> upstream t1 = []"
  then show "from_airflow_dag operator_cls (single_task_dag t1) h1 =
          (Returned (length h1),
           h1 @ [\<lparr>op_cls = operator_cls,
                   attrs = [''_operators'' \<mapsto>
                              VOrderedDict [(edge_name ''root'' (task_id t1), Some (Suc (length h1)))],
                            edge_name ''root'' (task_id t1) \<mapsto> VOperator (Suc (length h1))],
                   forward = SequentialForward (length h1)\<rparr>,
                 \<lparr>op_cls = operator_cls, attrs = [''_operators'' \<mapsto> VOrderedDict []],
                   forward = Registered f\<rparr>])"
    by (simp add: import_single)
qed

theorem export_then_import_witness:
  "to_airflow_operator leaf_heap 0 VNone [] = Returned exported_leaf
   \<and> ''task_id'' \<notin> fst ` set (case comms (op_cls (leaf_heap ! 0)) of None \<Rightarrow> [] | Some c \<Rightarrow> c)
   \<and> ''task_id'' \<notin> fst ` set ([] :: (string \<times> pyval) list)
   \<and> task_id exported_leaf = class_name (op_cls (leaf_heap ! 0))
   \<and> from_airflow_dag adder_class (single_task_dag exported_leaf) [] = (Raised OnlyPythonOperator, [])
   \<and> task_cls python_task = ''PythonOperator'' \<and> python_callable python_task = Some 7
   \<and> upstream python_task = []
   \<and> from_airflow_dag adder_class (single_task_dag python_task) [] =
        (Returned 0,
         [\<lparr>op_cls = adder_class,
           attrs = [''_operators'' \<mapsto> VOrderedDict [(''op__root__work'', Some 1)],
                    ''op__root__work'' \<mapsto> VOperator 1],
           forward = SequentialForward 0\<rparr>,
          \<lparr>op_cls = adder_class, attrs = [''_operators'' \<mapsto> VOrderedDict []],
           forward = Registered 7\<rparr>])"
proof -
  have c: "''task_id'' \<notin> fst ` set (case comms (op_cls (leaf_heap ! 0)) of None \<Rightarrow> [] | Some c \<Rightarrow> c)"
    by (simp add: leaf_heap_def adder_class_def)
  have k: "''task_id'' \<notin> fst ` set ([] :: (string \<times> pyval) list)" by simp
  have p: "task_cls python_task = ''PythonOperator''" "python_callable python_task = Some 7"
    "upstream python_task = []" "task_id python_task = ''work''"
    by (simp_all add: python_task_def)
  note t = export_then_import[where h = leaf_heap and operator = 0 and timeout = VNone
      and operator_kwargs = "[]" and t = exported_leaf and ?h1.0 = "[]" and operator_cls = adder_class
      and ?t1.0 = python_task and f = 7]
  from t export_leaf c k
  have a: "task_id exported_leaf = class_name (op_cls (leaf_heap ! 0))"
    and b: "from_airflow_dag adder_class (single_task_dag exported_leaf) [] = (Raised OnlyPythonOperator, [])"
    by blast+
  from t p
  have "from_airflow_dag adder_class (single_task_dag python_task) [] =
        (Returned 0,
         [\<lparr>op_cls = adder_class,
           attrs = [''_operators'' \<mapsto> VOrderedDict [(''op__root__work'', Some 1)],
                    ''op__root__work'' \<mapsto> VOperator 1],
           forward = SequentialForward 0\<rparr>,
          \<lparr>op_cls = adder_class, attrs = [''_operators'' \<mapsto> VOrderedDict []],
           forward = Registered 7\<rparr>])"
    by (simp add: edge_name_def)
  with export_leaf c k a b p show ?thesis by blast
qed

section \<open>Import: the tree that \<^verbatim>\<open>from_airflow_dag\<close> builds\<close>

lemma abc_topo:
  "build_topo_tree (task_group abc_dag) [] = Returned [(''A'', []), (''B'', [''A'']), (''C'', [''A''])]"
  by (simp add: abc_dag_def py_task_def)

lemma abc_import: "import_dag base_class abc_dag [] = (Returned (0, [''A'' \<mapsto> 1, ''B'' \<mapsto> 2, ''C'' \<mapsto> 3]), abc_tree)"
  unfolding import_dag_def abc_topo
  by (simp add: new_operator_eq abc_dag_def py_task_def register_forward_def edge_name_def
        try_register_def Operator_setattr_def getattr_dict_def py_contains_def dict_store_def
        abc_tree_def fun_upd_twist numeral_2_eq_2 numeral_3_eq_3)

lemma abc_is_dag_tree: "is_dag 5 abc_tree 0 = Some (Returned True)"
  by (simp add: is_dag_def self_named_operators_def eval_nat_numeral abc_tree_def operators_items_def method_lookup_def getattr_dict_def
        submodule_prefix_def root_label_def)

lemma edge_name_inj: "edge_name p c = edge_name p c' \<Longrightarrow> c = c'"
  by (simp add: edge_name_def)

lemma setattr_Returned:
  assumes "Operator_setattr h a key (VOperator c) = (Returned (), h')"
  shows "\<exists>reg. a < length h \<and> attrs (h ! a) ''_operators'' = Some (VOrderedDict reg) \<and>
           h' = h[a := (h ! a)\<lparr>attrs := (attrs (h ! a))
                    (''_operators'' \<mapsto> VOrderedDict (AList.update key (Some c) reg),
                     key \<mapsto> VOperator c)\<rparr>]"
proof -
  from assms obtain ops where o: "getattr_dict h a ''_operators'' = Some ops"
    by (auto simp: Operator_setattr_def split: option.splits)
  then have a: "a < length h" and o': "attrs (h ! a) ''_operators'' = Some ops"
    by (auto simp: getattr_dict_def split: if_splits)
  from assms o obtain reg where r: "ops = VOrderedDict reg"
    by (cases ops) (auto simp: Operator_setattr_def split: outcome.splits bool.splits if_splits)
  from assms o r have "h' = dict_store (dict_store h a ''_operators''
            (VOrderedDict (AList.update key (Some c) reg))) a key (VOperator c)"
    by (auto simp: Operator_setattr_def split: outcome.splits bool.splits if_splits)
  with a have "h' = h[a := (h ! a)\<lparr>attrs := (attrs (h ! a))
                    (''_operators'' \<mapsto> VOrderedDict (AList.update key (Some c) reg),
                     key \<mapsto> VOperator c)\<rparr>]"
    by (simp add: dict_store_def)
  with a o' r show ?thesis by blast
qed

lemma setattr_frame:
  assumes "Operator_setattr h a key (VOperator c) = (Returned (), h')" and "key \<noteq> ''_operators''"
  shows "a < length h" and "length h' = length h" and "attached h' a key c"
    and "\<And>b. b \<noteq> a \<Longrightarrow> h' ! b = h ! b"
    and "\<And>name c0. name \<noteq> key \<Longrightarrow> attached h a name c0 \<Longrightarrow> attached h' a name c0"
    and "\<And>b name c0. b \<noteq> a \<Longrightarrow> attached h b name c0 \<Longrightarrow> attached h' b name c0"
proof -
  from setattr_Returned[OF assms(1)] obtain reg where
    a: "a < length h" and r: "attrs (h ! a) ''_operators'' = Some (VOrderedDict reg)" and
    h': "h' = h[a := (h ! a)\<lparr>attrs := (attrs (h ! a))
                    (''_operators'' \<mapsto> VOrderedDict (AList.update key (Some c) reg),
                     key \<mapsto> VOperator c)\<rparr>]" by blast
  show "a < length h" by (rule a)
  show "length h' = length h" by (simp add: h')
  show "attached h' a key c"
    using a assms(2) by (simp add: attached_def getattr_dict_def operators_items_def h' update_conv')
  show "\<And>b. b \<noteq> a \<Longrightarrow> h' ! b = h ! b" by (simp add: h')
  show "\<And>name c0. name \<noteq> key \<Longrightarrow> attached h a name c0 \<Longrightarrow> attached h' a name c0"
    using a r assms(2)
    by (auto simp: attached_def getattr_dict_def operators_items_def h' update_conv')
  show "\<And>b name c0. b \<noteq> a \<Longrightarrow> attached h b name c0 \<Longrightarrow> attached h' b name c0"
    by (auto simp: attached_def getattr_dict_def operators_items_def h' split: if_splits)
qed

lemma attached_valid: "attached h a name c \<Longrightarrow> a < length h"
  by (auto simp: attached_def getattr_dict_def split: if_splits)

lemma attached_append: "attached h a name c \<Longrightarrow> attached (h @ xs) a name c"
  by (frule attached_valid)
     (auto simp: attached_def getattr_dict_def operators_items_def nth_append)

lemma attached_register_forward:
  "attached h a name c \<Longrightarrow> attached (register_forward h b f) a name c"
  by (frule attached_valid)
     (auto simp: attached_def getattr_dict_def operators_items_def register_forward_def
        nth_list_update)

lemma attached_try_register:
  "attached h a name c \<Longrightarrow> attached (try_register dag p b h) a name c"
  by (auto simp: try_register_def attached_register_forward split: option.splits)

lemma length_register_forward [simp]: "length (register_forward h b f) = length h"
  by (simp add: register_forward_def)

lemma length_try_register [simp]: "length (try_register dag p b h) = length h"
  by (simp add: try_register_def split: option.splits)

lemma fresh_ops_alloc:
  assumes "fresh_ops root h all_ops" and "all_ops p = None"
  shows "fresh_ops root (h @ [x]) (all_ops(p \<mapsto> length h))"
proof -
  from assms(1) have r: "root < length h"
    and v: "\<And>k a. all_ops k = Some a \<Longrightarrow> root < a \<and> a < length h"
    and i: "\<And>k k' a. all_ops k = Some a \<Longrightarrow> all_ops k' = Some a \<Longrightarrow> k = k'"
    unfolding fresh_ops_def by blast+
  have "root < length (h @ [x])" using r by simp
  moreover have "\<forall>k a. (all_ops(p \<mapsto> length h)) k = Some a \<longrightarrow> root < a \<and> a < length (h @ [x])"
    using r v by (auto simp: less_Suc_eq)
  moreover have "\<forall>k k' a. (all_ops(p \<mapsto> length h)) k = Some a \<longrightarrow>
      (all_ops(p \<mapsto> length h)) k' = Some a \<longrightarrow> k = k'"
  proof (intro allI impI)
    fix k k' a
    assume a: "(all_ops(p \<mapsto> length h)) k = Some a" and b: "(all_ops(p \<mapsto> length h)) k' = Some a"
    show "k = k'"
    proof (cases "k = p")
      case True
      with a have "a = length h" by simp
      with b v[of k' a] show ?thesis using True by (cases "k' = p") auto
    next
      case False
      with a have ka: "all_ops k = Some a" by simp
      with v[of k a] have "a < length h" by simp
      with b have "k' \<noteq> p" by auto
      with b have "all_ops k' = Some a" by simp
      with ka i show ?thesis by blast
    qed
  qed
  ultimately show ?thesis unfolding fresh_ops_def by blast
qed

lemma edge_attached_alloc:
  assumes "edge_attached h all_ops q c" and "all_ops p = None"
  shows "edge_attached (h @ [x]) (all_ops(p \<mapsto> a)) q c"
  using assms
  by (auto simp: edge_attached_def attached_append split: option.splits)

lemma edge_attached_try_register:
  "edge_attached h all_ops q c \<Longrightarrow> edge_attached (try_register dag p b h) all_ops q c"
  by (auto simp: edge_attached_def attached_try_register split: option.splits)

lemma edge_attached_register_forward:
  "edge_attached h all_ops q c \<Longrightarrow> edge_attached (register_forward h b f) all_ops q c"
  by (auto simp: edge_attached_def attached_register_forward split: option.splits)

lemma edge_attached_setattr:
  assumes s: "Operator_setattr h pa (edge_name p child) (VOperator ca) = (Returned (), h')"
    and f: "fresh_ops root h all_ops" and p: "all_ops p = Some pa" and c: "all_ops child = Some ca"
  shows "edge_attached h' all_ops p child"
    and "\<And>q c0. edge_attached h all_ops q c0 \<Longrightarrow> edge_attached h' all_ops q c0"
proof -
  note fr = setattr_frame[OF s edge_name_not_registry]
  show "edge_attached h' all_ops p child"
    using fr(3) p c by (simp add: edge_attached_def)
  fix q c0 assume e: "edge_attached h all_ops q c0"
  then obtain qa c0a where q: "all_ops q = Some qa" and c0: "all_ops c0 = Some c0a"
    and a: "attached h qa (edge_name q c0) c0a"
    by (auto simp: edge_attached_def split: option.splits)
  have "attached h' qa (edge_name q c0) c0a"
  proof (cases "qa = pa")
    case False
    from fr(6)[OF False a] show ?thesis .
  next
    case True
    with f p q have qp: "q = p" by (auto simp: fresh_ops_def)
    show ?thesis
    proof (cases "c0 = child")
      case True
      with c c0 qp \<open>qa = pa\<close> fr(3) show ?thesis by simp
    next
      case False
      then have "edge_name q c0 \<noteq> edge_name p child"
        using qp edge_name_inj by blast
      from fr(5)[OF this] a True show ?thesis by simp
    qed
  qed
  with q c0 show "edge_attached h' all_ops q c0" by (simp add: edge_attached_def)
qed

lemma fresh_ops_length:
  "fresh_ops root h all_ops \<Longrightarrow> length h' = length h \<Longrightarrow> fresh_ops root h' all_ops"
  by (simp add: fresh_ops_def)

lemma attach_parents_attached:
  assumes "attach_parents dag operator_cls child ps (h, all_ops) = (Returned (), h', all_ops')"
    and "fresh_ops root h all_ops" and "all_ops child = Some ca"
  shows "fresh_ops root h' all_ops' \<and> all_ops \<subseteq>\<^sub>m all_ops' \<and>
         (\<forall>q c0. edge_attached h all_ops q c0 \<longrightarrow> edge_attached h' all_ops' q c0) \<and>
         (\<forall>p \<in> set ps. edge_attached h' all_ops' p child)"
  using assms
proof (induction ps arbitrary: h all_ops)
  case Nil
  then show ?case by simp
next
  case (Cons p ps)
  define h1 where "h1 = (if all_ops p = None
      then h @ [\<lparr>op_cls = operator_cls, attrs = [''_operators'' \<mapsto> VOrderedDict []],
                   forward = ClassForward\<rparr>] else h)"
  define ao1 where "ao1 = (if all_ops p = None then all_ops(p \<mapsto> length h) else all_ops)"
  have f1: "fresh_ops root h1 ao1"
    using Cons.prems(2) by (auto simp: h1_def ao1_def fresh_ops_alloc)
  have sub: "all_ops \<subseteq>\<^sub>m ao1"
    by (auto simp: ao1_def map_le_def)
  have pres1: "\<And>q c0. edge_attached h all_ops q c0 \<Longrightarrow> edge_attached h1 ao1 q c0"
    by (auto simp: h1_def ao1_def edge_attached_alloc)
  obtain pa where pa: "ao1 p = Some pa"
    by (cases "all_ops p") (auto simp: ao1_def)
  from Cons.prems(3) sub have ca: "ao1 child = Some ca"
    by (auto simp: map_le_def dom_def)
  have step: "attach_parents dag operator_cls child (p # ps) (h, all_ops) =
      (case Operator_setattr h1 pa (edge_name p child) (VOperator ca) of
         (Raised e, h2) \<Rightarrow> (Raised e, h2, ao1)
       | (Returned u, h2) \<Rightarrow>
           attach_parents dag operator_cls child ps (try_register dag p pa h2, ao1))"
  proof (cases "all_ops p")
    case None
    then have e: "h1 = h @ [\<lparr>op_cls = operator_cls, attrs = [''_operators'' \<mapsto> VOrderedDict []],
                   forward = ClassForward\<rparr>]" "ao1 = all_ops(p \<mapsto> length h)"
      by (simp_all add: h1_def ao1_def)
    show ?thesis unfolding e using None pa[unfolded e] ca[unfolded e]
      by (simp add: new_operator_eq del: fun_upd_apply)
  next
    case (Some a)
    then have e: "h1 = h" "ao1 = all_ops" by (simp_all add: h1_def ao1_def)
    from Some pa e have "a = pa" by simp
    with Some have "all_ops p = Some pa" by simp
    then show ?thesis unfolding e using ca[unfolded e] by simp
  qed
  obtain r h2 where s: "Operator_setattr h1 pa (edge_name p child) (VOperator ca) = (r, h2)"
    by (cases "Operator_setattr h1 pa (edge_name p child) (VOperator ca)")
  from Cons.prems(1) step s have r: "r = Returned ()"
    by (cases r) auto
  with Cons.prems(1) step s have rest:
    "attach_parents dag operator_cls child ps (try_register dag p pa h2, ao1)
       = (Returned (), h', all_ops')" by simp
  note s' = s[unfolded r]
  note ea = edge_attached_setattr[OF s' f1 pa ca]
  note fr = setattr_frame[OF s' edge_name_not_registry]
  have f3: "fresh_ops root (try_register dag p pa h2) ao1"
    using f1 fr(2) by (simp add: fresh_ops_def)
  from Cons.IH[OF rest f3 ca]
  have I1: "fresh_ops root h' all_ops'" and I2: "ao1 \<subseteq>\<^sub>m all_ops'"
    and I3: "\<And>q c0. edge_attached (try_register dag p pa h2) ao1 q c0 \<Longrightarrow> edge_attached h' all_ops' q c0"
    and I4: "\<forall>p \<in> set ps. edge_attached h' all_ops' p child" by blast+
  have "all_ops \<subseteq>\<^sub>m all_ops'" using sub I2 by (rule map_le_trans)
  moreover have "\<forall>q c0. edge_attached h all_ops q c0 \<longrightarrow> edge_attached h' all_ops' q c0"
    using pres1 ea(2) edge_attached_try_register I3 by blast
  moreover have "edge_attached h' all_ops' p child"
    using ea(1) edge_attached_try_register I3 by blast
  ultimately show ?case using I1 I4 by simp
qed

lemma import_loop_attached:
  assumes "import_loop dag operator_cls topo (h, all_ops, pl) = (Returned (), h', all_ops', pl')"
    and "fresh_ops root h all_ops"
  shows "fresh_ops root h' all_ops' \<and> all_ops \<subseteq>\<^sub>m all_ops' \<and>
         (\<forall>q c0. edge_attached h all_ops q c0 \<longrightarrow> edge_attached h' all_ops' q c0) \<and>
         (\<forall>e \<in> set topo. all_ops' (fst e) \<noteq> None \<and>
                          (\<forall>p \<in> set (snd e). edge_attached h' all_ops' p (fst e))) \<and>
         pl' = pl @ map fst (filter (\<lambda>e. snd e = []) topo)"
  using assms
proof (induction topo arbitrary: h all_ops pl)
  case Nil
  then show ?case by simp
next
  case (Cons e topo)
  obtain child parents where e: "e = (child, parents)" by (cases e)
  define first where "first =
     (if all_ops child = None
      then (let (a, h') = new_operator operator_cls ClassForward h;
                all_ops' = all_ops(child \<mapsto> a)
            in case task_dict dag child of
                 None \<Rightarrow> (Raised PyKeyError, h', all_ops')
               | Some t \<Rightarrow>
                   (case python_callable t of
                      None \<Rightarrow> (Raised PyAttributeError, h', all_ops')
                    | Some f \<Rightarrow> (Returned (), register_forward h' a (Registered f), all_ops')))
      else (Returned (), h, all_ops))"
  obtain r1 h1 ao1 where first: "first = (r1, h1, ao1)" by (cases first)
  have step: "import_loop dag operator_cls (e # topo) (h, all_ops, pl) =
      (case first of
        (Raised e, h1, all_ops1) \<Rightarrow> (Raised e, h1, all_ops1, pl)
      | (Returned u, h1, all_ops1) \<Rightarrow>
          (case attach_parents dag operator_cls child parents (h1, all_ops1) of
             (Raised e, h2, all_ops2) \<Rightarrow> (Raised e, h2, all_ops2, pl)
           | (Returned u, h2, all_ops2) \<Rightarrow>
               import_loop dag operator_cls topo
                 (h2, all_ops2, if parents = [] then pl @ [child] else pl)))"
    unfolding e first_def by simp
  from Cons.prems(1) have r1: "r1 = Returned ()"
    unfolding step first by (cases r1) auto
  obtain r2 h2 ao2 where ap: "attach_parents dag operator_cls child parents (h1, ao1) = (r2, h2, ao2)"
    by (cases "attach_parents dag operator_cls child parents (h1, ao1)")
  from Cons.prems(1) have X:
    "(case attach_parents dag operator_cls child parents (h1, ao1) of
             (Raised e, h2, all_ops2) \<Rightarrow> (Raised e, h2, all_ops2, pl)
           | (Returned u, h2, all_ops2) \<Rightarrow>
               import_loop dag operator_cls topo
                 (h2, all_ops2, if parents = [] then pl @ [child] else pl))
      = (Returned (), h', all_ops', pl')"
    unfolding step first r1 by simp
  from X have r2: "r2 = Returned ()"
    unfolding ap by (cases r2) auto
  from X have rest:
    "import_loop dag operator_cls topo (h2, ao2, if parents = [] then pl @ [child] else pl)
       = (Returned (), h', all_ops', pl')"
    unfolding ap r2 by simp
  have A: "fresh_ops root h1 ao1 \<and> all_ops \<subseteq>\<^sub>m ao1 \<and>
           (\<forall>q c0. edge_attached h all_ops q c0 \<longrightarrow> edge_attached h1 ao1 q c0) \<and>
           ao1 child \<noteq> None"
  proof (cases "all_ops child")
    case None
    from first[unfolded first_def r1] None obtain f where
      h1: "h1 = register_forward
                 (h @ [\<lparr>op_cls = operator_cls, attrs = [''_operators'' \<mapsto> VOrderedDict []],
                         forward = ClassForward\<rparr>]) (length h) (Registered f)"
      and ao1: "ao1 = all_ops(child \<mapsto> length h)"
      by (auto simp: new_operator_eq Let_def split: option.splits)
    have "fresh_ops root h1 ao1"
      unfolding h1 ao1
      by (rule fresh_ops_length[OF fresh_ops_alloc[OF Cons.prems(2) None]]) simp
    moreover have "all_ops \<subseteq>\<^sub>m ao1" using None by (auto simp: ao1 map_le_def)
    moreover have "\<forall>q c0. edge_attached h all_ops q c0 \<longrightarrow> edge_attached h1 ao1 q c0"
      unfolding h1 ao1
      using edge_attached_alloc[where all_ops = all_ops and p = child, OF _ None]
      by (blast intro: edge_attached_register_forward)
    moreover have "ao1 child \<noteq> None" by (simp add: ao1)
    ultimately show ?thesis by blast
  next
    case (Some a)
    with first[unfolded first_def r1] have "h1 = h" "ao1 = all_ops" by simp_all
    with Some Cons.prems(2) show ?thesis by simp
  qed
  then obtain ca where ca: "ao1 child = Some ca" by auto
  from A have f1: "fresh_ops root h1 ao1" by blast
  from attach_parents_attached[OF ap[unfolded r2] f1 ca]
  have B1: "fresh_ops root h2 ao2" and B2: "ao1 \<subseteq>\<^sub>m ao2"
    and B3: "\<And>q c0. edge_attached h1 ao1 q c0 \<Longrightarrow> edge_attached h2 ao2 q c0"
    and B4: "\<forall>p \<in> set parents. edge_attached h2 ao2 p child" by blast+
  from Cons.IH[OF rest B1]
  have C1: "fresh_ops root h' all_ops'" and C2: "ao2 \<subseteq>\<^sub>m all_ops'"
    and C3: "\<And>q c0. edge_attached h2 ao2 q c0 \<Longrightarrow> edge_attached h' all_ops' q c0"
    and C4: "\<forall>e \<in> set topo. all_ops' (fst e) \<noteq> None \<and>
                          (\<forall>p \<in> set (snd e). edge_attached h' all_ops' p (fst e))"
    and C5: "pl' = (if parents = [] then pl @ [child] else pl) @ map fst (filter (\<lambda>e. snd e = []) topo)"
    by blast+
  have "all_ops \<subseteq>\<^sub>m all_ops'"
    using A B2 C2 by (blast intro: map_le_trans)
  moreover have "\<forall>q c0. edge_attached h all_ops q c0 \<longrightarrow> edge_attached h' all_ops' q c0"
    using A B3 C3 by blast
  moreover have "all_ops' child \<noteq> None"
  proof -
    from ca B2 have "ao2 child = Some ca" by (auto simp: map_le_def dom_def)
    with C2 have "all_ops' child = Some ca" by (auto simp: map_le_def dom_def)
    then show ?thesis by simp
  qed
  moreover have "\<forall>p \<in> set parents. edge_attached h' all_ops' p child"
    using B4 C3 by blast
  moreover have "pl' = pl @ map fst (filter (\<lambda>e. snd e = []) (e # topo))"
    using C5 e by simp
  ultimately show ?case using C1 C4 e by simp
qed

lemma attach_root_attached:
  assumes "attach_root root all_ops ps h = (Returned (), h')" and "fresh_ops root h all_ops"
  shows "length h' = length h \<and>
         (\<forall>q c0. edge_attached h all_ops q c0 \<longrightarrow> edge_attached h' all_ops q c0) \<and>
         (\<forall>q a. all_ops q = Some a \<longrightarrow> attached h root (edge_name ''root'' q) a \<longrightarrow>
                 attached h' root (edge_name ''root'' q) a) \<and>
         (\<forall>p \<in> set ps. \<exists>a. all_ops p = Some a \<and> attached h' root (edge_name ''root'' p) a)"
  using assms
proof (induction ps arbitrary: h)
  case Nil
  then show ?case by simp
next
  case (Cons p ps)
  from Cons.prems(1) obtain a where a: "all_ops p = Some a"
    by (cases "all_ops p") auto
  obtain r h1 where s: "Operator_setattr h root (edge_name ''root'' p) (VOperator a) = (r, h1)"
    by (cases "Operator_setattr h root (edge_name ''root'' p) (VOperator a)")
  from Cons.prems(1) a s have r: "r = Returned ()" by (cases r) auto
  from Cons.prems(1) a s r have rest: "attach_root root all_ops ps h1 = (Returned (), h')" by simp
  note fr = setattr_frame[OF s[unfolded r] edge_name_not_registry]
  have f1: "fresh_ops root h1 all_ops" using Cons.prems(2) fr(2) by (rule fresh_ops_length)
  from Cons.IH[OF rest f1]
  have I1: "length h' = length h1"
    and I2: "\<And>q c0. edge_attached h1 all_ops q c0 \<Longrightarrow> edge_attached h' all_ops q c0"
    and I3: "\<And>q a. all_ops q = Some a \<Longrightarrow> attached h1 root (edge_name ''root'' q) a \<Longrightarrow>
                 attached h' root (edge_name ''root'' q) a"
    and I4: "\<forall>p \<in> set ps. \<exists>a. all_ops p = Some a \<and> attached h' root (edge_name ''root'' p) a"
    by blast+
  have P1: "\<And>q c0. edge_attached h all_ops q c0 \<Longrightarrow> edge_attached h1 all_ops q c0"
  proof -
    fix q c0 assume "edge_attached h all_ops q c0"
    then obtain qa c0a where q: "all_ops q = Some qa" "all_ops c0 = Some c0a"
      "attached h qa (edge_name q c0) c0a"
      by (auto simp: edge_attached_def split: option.splits)
    from q(1) Cons.prems(2) have "qa \<noteq> root" by (auto simp: fresh_ops_def)
    from fr(6)[OF this q(3)] q(1,2) show "edge_attached h1 all_ops q c0"
      by (simp add: edge_attached_def)
  qed
  have P2: "\<And>q b. all_ops q = Some b \<Longrightarrow> attached h root (edge_name ''root'' q) b \<Longrightarrow>
                 attached h1 root (edge_name ''root'' q) b"
  proof -
    fix q b assume q: "all_ops q = Some b" "attached h root (edge_name ''root'' q) b"
    show "attached h1 root (edge_name ''root'' q) b"
    proof (cases "q = p")
      case True
      with q(1) a fr(3) show ?thesis by simp
    next
      case False
      then have "edge_name ''root'' q \<noteq> edge_name ''root'' p" using edge_name_inj by blast
      from fr(5)[OF this q(2)] show ?thesis .
    qed
  qed
  have "length h' = length h" using I1 fr(2) by simp
  moreover have "\<forall>q c0. edge_attached h all_ops q c0 \<longrightarrow> edge_attached h' all_ops q c0"
    using P1 I2 by blast
  moreover have "\<forall>q a. all_ops q = Some a \<longrightarrow> attached h root (edge_name ''root'' q) a \<longrightarrow>
                 attached h' root (edge_name ''root'' q) a"
    using P2 I3 by blast
  moreover have "\<exists>b. all_ops p = Some b \<and> attached h' root (edge_name ''root'' p) b"
    using a fr(3) I3 by blast
  ultimately show ?case using I4 by simp
qed

lemma import_dag_Returned:
  assumes "import_dag operator_cls dag h = (Returned (root, all_ops), h')"
    and "build_topo_tree (task_group dag) [] = Returned topo_tree"
  shows "\<exists>h1 h2 pl. root = length h \<and>
     import_loop dag operator_cls topo_tree
       (h @ [\<lparr>op_cls = operator_cls, attrs = [''_operators'' \<mapsto> VOrderedDict []],
               forward = ClassForward\<rparr>], Map.empty, [])
       = (Returned (), h1, all_ops, pl) \<and>
     attach_root root all_ops pl h1 = (Returned (), h2) \<and>
     h' = register_forward h2 root (SequentialForward root)"
proof -
  define h0 where "h0 = h @ [\<lparr>op_cls = operator_cls, attrs = [''_operators'' \<mapsto> VOrderedDict []],
               forward = (ClassForward :: 'a fwd)\<rparr>]"
  obtain r1 h1 ao pl where l: "import_loop dag operator_cls topo_tree (h0, Map.empty, []) = (r1, h1, ao, pl)"
    by (cases "import_loop dag operator_cls topo_tree (h0, Map.empty, [])")
  from assms have X: "(case (r1, h1, ao, pl) of
             (Raised e, h1, all_ops, parent_less_ops) \<Rightarrow> (Raised e, h1)
           | (Returned u, h1, all_ops, parent_less_ops) \<Rightarrow>
               (case attach_root (length h) all_ops parent_less_ops h1 of
                  (Raised e, h2) \<Rightarrow> (Raised e, h2)
                | (Returned u, h2) \<Rightarrow>
                    (Returned (length h, all_ops),
                     register_forward h2 (length h) (SequentialForward (length h)))))
        = (Returned (root, all_ops), h')"
    by (simp add: import_dag_def new_operator_eq l[unfolded h0_def])
  then have r1: "r1 = Returned ()" by (cases r1) auto
  obtain r2 h2 where a: "attach_root (length h) ao pl h1 = (r2, h2)"
    by (cases "attach_root (length h) ao pl h1")
  from X r1 a have r2: "r2 = Returned ()" by (cases r2) auto
  from X r1 a r2 have e: "root = length h" "all_ops = ao"
    "h' = register_forward h2 (length h) (SequentialForward (length h))" by auto
  have "import_loop dag operator_cls topo_tree (h0, Map.empty, []) = (Returned (), h1, all_ops, pl)"
    using l r1 e(2) by simp
  moreover have "attach_root root all_ops pl h1 = (Returned (), h2)"
    using a r2 e(1,2) by simp
  moreover have "h' = register_forward h2 root (SequentialForward root)"
    using e(1,3) by simp
  ultimately show ?thesis unfolding h0_def using e(1) by blast
qed

text \<open>
  Claim C2. Let the import of a task group succeed, with \<^verbatim>\<open>topo_tree\<close> the table of
  (child, parents) pairs and \<^verbatim>\<open>all_ops\<close> the operators made for the task ids (distinct
  objects for distinct ids, none of them the synthetic root). In the heap that results,
  for every pair and every parent \<open>p\<close> of it, the child's operator is attached to the
  operator of \<open>p\<close> under \<^verbatim>\<open>op__{p}__{child}\<close>, and the operator of every task without
  parents is attached to the root under \<^verbatim>\<open>op__root__{task_id}\<close>. In particular, importing
  the group of A, B and C, with A upstream of B and of C, gives a root whose only child
  is \<^verbatim>\<open>op__root__A\<close>, where A has the two children \<^verbatim>\<open>op__A__B\<close> and \<^verbatim>\<open>op__A__C\<close>,
  leaves whose forwards are the callables of B and of C, and \<^verbatim>\<open>is_dag\<close> of the root is
  true.
\<close>

theorem import_attaches_children:
  assumes "import_dag operator_cls dag h = (Returned (root, all_ops), h')"
    and "build_topo_tree (task_group dag) [] = Returned topo_tree"
  shows "from_airflow_dag operator_cls dag h = (Returned root, h')
     \<and> fresh_ops root h' all_ops
     \<and> (\<forall>e \<in> set topo_tree. \<forall>p \<in> set (snd e). edge_attached h' all_ops p (fst e))
     \<and> (\<forall>e \<in> set topo_tree. snd e = [] \<longrightarrow>
           (\<exists>a. all_ops (fst e) = Some a \<and> attached h' root (edge_name ''root'' (fst e)) a))
     \<and> from_airflow_dag base_class abc_dag [] = (Returned 0, abc_tree)
     \<and> children_of abc_tree 0 = [(''op__root__A'', 1)]
     \<and> children_of abc_tree 1 = [(''op__A__B'', 2), (''op__A__C'', 3)]
     \<and> children_of abc_tree 2 = [] \<and> children_of abc_tree 3 = []
     \<and> forward (abc_tree ! 2) = Registered 20 \<and> forward (abc_tree ! 3) = Registered 30
     \<and> is_dag 5 abc_tree 0 = Some (Returned True)"
proof -
  from import_dag_Returned[OF assms] obtain h1 h2 pl where
    root: "root = length h" and
    l: "import_loop dag operator_cls topo_tree
       (h @ [\<lparr>op_cls = operator_cls, attrs = [''_operators'' \<mapsto> VOrderedDict []],
               forward = ClassForward\<rparr>], Map.empty, [])
       = (Returned (), h1, all_ops, pl)" and
    a: "attach_root root all_ops pl h1 = (Returned (), h2)" and
    h': "h' = register_forward h2 root (SequentialForward root)" by blast
  have f0: "fresh_ops root
       (h @ [\<lparr>op_cls = operator_cls, attrs = [''_operators'' \<mapsto> VOrderedDict []],
               forward = ClassForward\<rparr>]) Map.empty"
    by (simp add: fresh_ops_def root)
  note L = import_loop_attached[OF l f0]
  note L1 = L[THEN conjunct1]
  note L2 = L[THEN conjunct2, THEN conjunct2, THEN conjunct2, THEN conjunct1]
  have L3: "pl = map fst (filter (\<lambda>e. snd e = []) topo_tree)"
    using L[THEN conjunct2, THEN conjunct2, THEN conjunct2, THEN conjunct2] by simp
  note R = attach_root_attached[OF a L1]
  note R1 = R[THEN conjunct1]
  have R2: "\<And>q c0. edge_attached h1 all_ops q c0 \<Longrightarrow> edge_attached h2 all_ops q c0"
    using R[THEN conjunct2, THEN conjunct1] by blast
  note R3 = R[THEN conjunct2, THEN conjunct2, THEN conjunct2]
  have 1: "from_airflow_dag operator_cls dag h = (Returned root, h')"
    using assms(1) by (simp add: from_airflow_dag_def)
  have 2: "fresh_ops root h' all_ops"
    using L1 R1 by (simp add: fresh_ops_def h')
  have 3: "\<forall>e \<in> set topo_tree. \<forall>p \<in> set (snd e). edge_attached h' all_ops p (fst e)"
  proof (intro ballI)
    fix e p assume "e \<in> set topo_tree" "p \<in> set (snd e)"
    with L2 have "edge_attached h1 all_ops p (fst e)" by blast
    then have "edge_attached h2 all_ops p (fst e)" by (rule R2)
    then show "edge_attached h' all_ops p (fst e)"
      unfolding h' by (rule edge_attached_register_forward)
  qed
  have 4: "\<forall>e \<in> set topo_tree. snd e = [] \<longrightarrow>
           (\<exists>a. all_ops (fst e) = Some a \<and> attached h' root (edge_name ''root'' (fst e)) a)"
  proof (intro ballI impI)
    fix e assume "e \<in> set topo_tree" "snd e = []"
    then have "fst e \<in> set pl" by (auto simp: L3)
    with R3 obtain a where x: "all_ops (fst e) = Some a"
      "attached h2 root (edge_name ''root'' (fst e)) a" by blast
    from x(2) have "attached h' root (edge_name ''root'' (fst e)) a"
      unfolding h' by (rule attached_register_forward)
    with x(1) show "\<exists>a. all_ops (fst e) = Some a \<and> attached h' root (edge_name ''root'' (fst e)) a"
      by simp
  qed
  have 5: "from_airflow_dag base_class abc_dag [] = (Returned 0, abc_tree)"
    by (simp add: from_airflow_dag_def abc_import)
  have 6: "children_of abc_tree 0 = [(''op__root__A'', 1)]"
    "children_of abc_tree 1 = [(''op__A__B'', 2), (''op__A__C'', 3)]"
    "children_of abc_tree 2 = []" "children_of abc_tree 3 = []"
    "forward (abc_tree ! 2) = Registered 20" "forward (abc_tree ! 3) = Registered 30"
    by (simp_all add: children_of_def operators_items_def getattr_dict_def abc_tree_def
          numeral_2_eq_2 numeral_3_eq_3)
  show ?thesis by (intro conjI 1 2 3 4 5 6 abc_is_dag_tree)
qed

theorem import_attaches_children_witness:
  "import_dag base_class abc_dag [] = (Returned (0, [''A'' \<mapsto> 1, ''B'' \<mapsto> 2, ''C'' \<mapsto> 3]), abc_tree)
   \<and> build_topo_tree (task_group abc_dag) []
       = Returned [(''A'', []), (''B'', [''A'']), (''C'', [''A''])]
   \<and> edge_attached abc_tree [''A'' \<mapsto> 1, ''B'' \<mapsto> 2, ''C'' \<mapsto> 3] ''A'' ''B''
   \<and> edge_attached abc_tree [''A'' \<mapsto> 1, ''B'' \<mapsto> 2, ''C'' \<mapsto> 3] ''A'' ''C''
   \<and> attached abc_tree 0 (edge_name ''root'' ''A'') 1
   \<and> edge_name ''root'' ''A'' = ''op__root__A'' \<and> edge_name ''A'' ''B'' = ''op__A__B''
   \<and> edge_name ''A'' ''C'' = ''op__A__C''"
proof -
  note t = import_attaches_children[OF abc_import abc_topo]
  note t3 = t[THEN conjunct2, THEN conjunct2, THEN conjunct1]
  note t4 = t[THEN conjunct2, THEN conjunct2, THEN conjunct2, THEN conjunct1]
  from t3 have a: "edge_attached abc_tree [''A'' \<mapsto> 1, ''B'' \<mapsto> 2, ''C'' \<mapsto> 3] ''A'' ''B''"
    "edge_attached abc_tree [''A'' \<mapsto> 1, ''B'' \<mapsto> 2, ''C'' \<mapsto> 3] ''A'' ''C''" by simp_all
  from t4 have b: "attached abc_tree 0 (edge_name ''root'' ''A'') 1" by simp
  have c: "edge_name ''root'' ''A'' = ''op__root__A''" "edge_name ''A'' ''B'' = ''op__A__B''"
    "edge_name ''A'' ''C'' = ''op__A__C''" by (simp_all add: edge_name_def)
  show ?thesis by (intro conjI abc_import abc_topo a b c)
qed

section \<open>Heaps built by construction and child registration\<close>

text \<open>
  The heaps that the traversal theorem speaks about: the empty heap is initialised, and
  so is every heap made from an initialised one by constructing an operator or by
  registering an operator of the heap as a child under a name other than \<^verbatim>\<open>_operators\<close>,
  whether the registration succeeds or raises.
\<close>

lemma initialised_empty: "initialised []"
  by (simp add: initialised_def)

lemma refs_below_update:
  "refs_below n reg \<Longrightarrow> c < n \<Longrightarrow> refs_below n (AList.update k (Some c) reg)"
  unfolding refs_below_def by (induction reg) auto

lemma refs_below_mono: "refs_below n reg \<Longrightarrow> n \<le> m \<Longrightarrow> refs_below m reg"
  unfolding refs_below_def by (auto simp: list_all_iff split: option.splits)

lemma registry_case:
  "(case x of None \<Rightarrow> False | Some (VOrderedDict reg) \<Rightarrow> Q reg | Some _ \<Rightarrow> False)
     \<longleftrightarrow> (\<exists>reg. x = Some (VOrderedDict reg) \<and> Q reg)"
  by (auto split: option.splits pyval.splits)

lemma initialised_iff:
  "initialised h \<longleftrightarrow>
     (\<forall>a < length h. \<exists>reg. attrs (h ! a) ''_operators'' = Some (VOrderedDict reg) \<and>
        refs_below (length h) reg)"
  unfolding initialised_def list_all_length registry_case ..

lemma initialised_fresh:
  assumes "initialised h"
  shows "initialised
           (h @ [\<lparr>op_cls = cls, attrs = [''_operators'' \<mapsto> VOrderedDict []], forward = fwd\<rparr>])"
  unfolding initialised_iff
proof (intro allI impI)
  fix a
  assume "a < length
      (h @ [\<lparr>op_cls = cls, attrs = [''_operators'' \<mapsto> VOrderedDict []], forward = fwd\<rparr>])"
  then have a: "a < Suc (length h)" by simp
  show "\<exists>reg. attrs ((h @ [\<lparr>op_cls = cls, attrs = [''_operators'' \<mapsto> VOrderedDict []],
                               forward = fwd\<rparr>]) ! a) ''_operators'' = Some (VOrderedDict reg) \<and>
          refs_below (length (h @ [\<lparr>op_cls = cls,
                               attrs = [''_operators'' \<mapsto> VOrderedDict []], forward = fwd\<rparr>])) reg"
  proof (cases "a < length h")
    case True
    with assms obtain reg where "attrs (h ! a) ''_operators'' = Some (VOrderedDict reg)"
      "refs_below (length h) reg"
      unfolding initialised_iff by blast
    with True refs_below_mono[of "length h" reg "Suc (length h)"] show ?thesis
      by (simp add: nth_append)
  next
    case False
    with a have "a = length h" by simp
    then show ?thesis by (simp add: refs_below_def)
  qed
qed

lemma initialised_new_operator:
  "initialised h \<Longrightarrow> initialised (snd (new_operator cls fwd h))"
  by (simp add: new_operator_eq initialised_fresh)

lemma initialised_setattr:
  assumes "initialised h" and "c < length h" and "key \<noteq> ''_operators''"
  shows "initialised (snd (Operator_setattr h a key (VOperator c)))"
proof (cases "fst (Operator_setattr h a key (VOperator c))")
  case (Raised e)
  then have "snd (Operator_setattr h a key (VOperator c)) = h"
    by (auto simp: Operator_setattr_def split: option.splits outcome.splits bool.splits
          pyval.splits if_splits)
  with assms(1) show ?thesis by simp
next
  case (Returned u)
  then have s: "Operator_setattr h a key (VOperator c)
      = (Returned (), snd (Operator_setattr h a key (VOperator c)))"
    by (cases "Operator_setattr h a key (VOperator c)") simp
  from setattr_Returned[OF s] obtain reg where
    a: "a < length h" and r: "attrs (h ! a) ''_operators'' = Some (VOrderedDict reg)" and
    h': "snd (Operator_setattr h a key (VOperator c))
           = h[a := (h ! a)\<lparr>attrs := (attrs (h ! a))
                    (''_operators'' \<mapsto> VOrderedDict (AList.update key (Some c) reg),
                     key \<mapsto> VOperator c)\<rparr>]" by blast
  show ?thesis
    unfolding h' initialised_iff
  proof (intro allI impI)
    fix b
    assume "b < length (h[a := (h ! a)\<lparr>attrs := (attrs (h ! a))
                    (''_operators'' \<mapsto> VOrderedDict (AList.update key (Some c) reg),
                     key \<mapsto> VOperator c)\<rparr>])"
    then have b: "b < length h" by simp
    from assms(1) b obtain regb where rb: "attrs (h ! b) ''_operators'' = Some (VOrderedDict regb)"
      "refs_below (length h) regb"
      unfolding initialised_iff by blast
    show "\<exists>reg'. attrs (h[a := (h ! a)\<lparr>attrs := (attrs (h ! a))
                    (''_operators'' \<mapsto> VOrderedDict (AList.update key (Some c) reg),
                     key \<mapsto> VOperator c)\<rparr>] ! b) ''_operators'' = Some (VOrderedDict reg') \<and>
            refs_below (length (h[a := (h ! a)\<lparr>attrs := (attrs (h ! a))
                    (''_operators'' \<mapsto> VOrderedDict (AList.update key (Some c) reg),
                     key \<mapsto> VOperator c)\<rparr>])) reg'"
    proof (cases "b = a")
      case False
      with rb show ?thesis by simp
    next
      case True
      with rb r have "regb = reg" by simp
      with rb(2) assms(2) have "refs_below (length h) (AList.update key (Some c) reg)"
        by (intro refs_below_update) simp_all
      with True a assms(3) show ?thesis by simp
    qed
  qed
qed

text \<open>
  The same holds for heaps in which nothing shadows the traversal method, as long as no
  attribute is assigned under the method's name.
\<close>

lemma unshadowed_fresh:
  assumes "unshadowed h"
  shows "unshadowed
           (h @ [\<lparr>op_cls = cls, attrs = [''_operators'' \<mapsto> VOrderedDict []], forward = fwd\<rparr>])"
  using assms by (simp add: unshadowed_def)

lemma unshadowed_new_operator:
  "unshadowed h \<Longrightarrow> unshadowed (snd (new_operator cls fwd h))"
  by (simp add: new_operator_eq unshadowed_fresh)

lemma unshadowed_dict_store:
  assumes "unshadowed h" and "key \<noteq> ''named_operators''"
  shows "unshadowed (dict_store h a key v)"
  using assms
  by (auto simp: unshadowed_def dict_store_def list_all_length nth_list_update)

lemma unshadowed_setattr:
  assumes "unshadowed h" and "key \<noteq> ''named_operators''"
  shows "unshadowed (snd (Operator_setattr h a key v))"
proof -
  have k: "''_operators'' \<noteq> ''named_operators''" by simp
  show ?thesis
    using assms unshadowed_dict_store[OF unshadowed_dict_store[OF assms(1) k] assms(2)]
      unshadowed_dict_store[OF assms]
    by (auto simp: Operator_setattr_def split: pyval.splits option.splits outcome.splits
          bool.splits if_splits)
qed

text \<open>
  Registering a child under the name \<^verbatim>\<open>named_operators\<close> is accepted by \<^verbatim>\<open>__setattr__\<close>
  and shadows the method. The heap is initialised, and the walk from the root ends when
  it looks the method up on the child that carries the entry.
\<close>

lemma shadowed_heap_built:
  "shadowed_heap =
     snd (Operator_setattr
            (snd (Operator_setattr
                    (snd (new_operator base_class ()
                            (snd (new_operator base_class ()
                                    (snd (new_operator base_class () []))))))
                    0 ''m'' (VOperator 1)))
            1 ''named_operators'' (VOperator 2))"
  by (simp add: new_operator_eq Operator_setattr_def getattr_dict_def py_contains_def
        dict_store_def shadowed_heap_def fun_upd_twist)

lemma shadowed_heap_walk:
  "initialised shadowed_heap \<and> \<not> unshadowed shadowed_heap
   \<and> named_operators 4 shadowed_heap True {} [] 0 = Some ([([], 0)], {0}, Some ShadowedMethodCall)"
  by (simp add: initialised_def refs_below_def unshadowed_def shadowed_heap_def eval_nat_numeral
        operators_items_def method_lookup_def getattr_dict_def)

end
